theory Spec2Isabelle
  imports Complex_Main "HOL-Library.Word"
begin

unbundle bit_operations_syntax

section \<open>The PSVR sensor stream of vridge\_psvr.py\<close>

text \<open>
  The script reads 64-byte HID reports from the headset, decodes two IMU sub-frames from
  each, turns their rolling microsecond timestamps into elapsed seconds, optionally
  measures a gyro bias, feeds an orientation filter and packs the orientation for VRidge.

  Python's integers are unbounded: they are \<open>int\<close> here. Python 3's true division of
  integers and the numpy float arithmetic are modelled on \<open>real\<close>, so rounding of
  binary64 values is not part of the model. Exceptions are values of \<open>error\<close>.
\<close>

type_synonym byte = "8 word"

text \<open>The exceptions of the construct library that the script's structs can raise.\<close>

datatype error = StreamError | RangeError | PaddingError | FormatFieldError

subsection \<open>Parsing: the \<open>sensor\<close> struct\<close>

text \<open>
  A construct parser consumes bytes from the front of a stream: it returns the value and
  the rest of the stream, or raises \<open>StreamError\<close> when the stream is too short.
\<close>

definition Int32ul_parse :: "byte list \<Rightarrow> error + (int \<times> byte list)" where
  "Int32ul_parse bs =
     (if length bs < 4 then Inl StreamError
      else Inr (uint (bs ! 0) + 256 * uint (bs ! 1) + 65536 * uint (bs ! 2)
                  + 16777216 * uint (bs ! 3), drop 4 bs))"

definition Int16sl_parse :: "byte list \<Rightarrow> error + (int \<times> byte list)" where
  "Int16sl_parse bs =
     (if length bs < 2 then Inl StreamError
      else let u = uint (bs ! 0) + 256 * uint (bs ! 1)
           in Inr (if 32768 \<le> u then u - 65536 else u, drop 2 bs))"

fun Array_parse ::
  "nat \<Rightarrow> (byte list \<Rightarrow> error + ('a \<times> byte list)) \<Rightarrow> byte list \<Rightarrow> error + ('a list \<times> byte list)"
where
  "Array_parse 0 p bs = Inr ([], bs)"
| "Array_parse (Suc n) p bs =
     (case p bs of
        Inl e \<Rightarrow> Inl e
      | Inr (x, rest) \<Rightarrow>
          (case Array_parse n p rest of
             Inl e \<Rightarrow> Inl e
           | Inr (xs, rest') \<Rightarrow> Inr (x # xs, rest')))"

record frame =
  timestamp :: int
  gyro :: "int list"
  acc :: "int list"

text \<open>
  \<open>sensor = Struct("timestamp" / Int32ul, "gyro" / Array(3, Int16sl), "acc" / Array(3, Int16sl))\<close>;
  \<open>sensor.parse\<close> ignores what follows the sixteen bytes it reads.
\<close>

definition sensor_parse :: "byte list \<Rightarrow> error + frame" where
  "sensor_parse bs =
     (case Int32ul_parse bs of
        Inl e \<Rightarrow> Inl e
      | Inr (t, r1) \<Rightarrow>
          (case Array_parse 3 Int16sl_parse r1 of
             Inl e \<Rightarrow> Inl e
           | Inr (g, r2) \<Rightarrow>
               (case Array_parse 3 Int16sl_parse r2 of
                  Inl e \<Rightarrow> Inl e
                | Inr (a, r3) \<Rightarrow> Inr \<lparr>timestamp = t, gyro = g, acc = a\<rparr>)))"

text \<open>A Python slice \<open>data[i:j]\<close> with \<open>0 \<le> i \<le> j\<close>: it is cut short, never an error.\<close>

definition py_slice :: "'a list \<Rightarrow> nat \<Rightarrow> nat \<Rightarrow> 'a list" where
  "py_slice data i j = take (j - i) (drop i data)"

subsection \<open>Constants and element-wise arithmetic of the numpy arrays\<close>

definition ACC_FACTOR :: "int list" where
  "ACC_FACTOR = [1, 1, -1]"

definition GYRO_FACTOR :: "real list" where
  "GYRO_FACTOR = map (\<lambda>s. s * ((1998 / 2 ^ 15) * (pi / 180))) [1, 1, -1]"

definition time2_init :: int where
  "time2_init = 0"

definition position :: "real list" where
  "position = [0, 0, 0]"

definition gcomp_init :: "int list" where
  "gcomp_init = [0, 0, 0]"

definition comptime_init :: real where
  "comptime_init = 0"

subsection \<open>Elapsed time between two raw timestamps\<close>

text \<open>
  The first sub-frame of a report is timed against the retained \<open>time2\<close>
  (\<open>if time1 < time2: time2 = time2 - (1 << 24)\<close>, then \<open>if time2:\<close> the difference,
  else 500 microseconds); the second sub-frame against the first
  (\<open>if time2 < time1: time1 = time1 - (1 << 24)\<close>, then the difference).
  Both loops of the script contain these statements.
\<close>

definition first_delta :: "int \<Rightarrow> int \<Rightarrow> real" where
  "first_delta time2 time1 =
     (let time2' = (if time1 < time2 then time2 - 2 ^ 24 else time2)
      in if time2' \<noteq> 0 then real_of_int (time1 - time2') / 1000000
         else 500 / 1000000)"

definition second_delta :: "int \<Rightarrow> int \<Rightarrow> real" where
  "second_delta time1 time2 =
     (let time1' = (if time2 < time1 then time1 - 2 ^ 24 else time1)
      in real_of_int (time2 - time1') / 1000000)"

subsection \<open>The calibration loop\<close>

type_synonym read = "byte list option"

record calib =
  time2 :: int
  gcomp :: "int list"
  comptime :: real

text \<open>
  One pass of the body of \<open>while Sensor and options.comp\<close> on a report that was read:
  both sub-frames add their gyro counts to \<open>gcomp\<close> and their elapsed time to
  \<open>comptime\<close>, and \<open>time2\<close> keeps the second timestamp. Here the sums are exact;
  the loop with the rounding of binary64 follows further down.
\<close>

definition calib_body :: "calib \<Rightarrow> byte list \<Rightarrow> error + calib" where
  "calib_body st data =
     (case sensor_parse (py_slice data 16 32) of
        Inl e \<Rightarrow> Inl e
      | Inr frame1 \<Rightarrow>
          let time1 = timestamp frame1;
              delta1 = first_delta (time2 st) time1;
              gcomp1 = map2 (+) (gcomp st) (gyro frame1);
              comptime1 = comptime st + delta1
          in (case sensor_parse (py_slice data 32 48) of
                Inl e \<Rightarrow> Inl e
              | Inr frame2 \<Rightarrow>
                  let delta2 = second_delta time1 (timestamp frame2)
                  in Inr \<lparr>time2 = timestamp frame2,
                          gcomp = map2 (+) gcomp1 (gyro frame2),
                          comptime = comptime1 + delta2\<rparr>))"

text \<open>\<open>gcomp = gcomp * GYRO_FACTOR / comptime\<close>\<close>

definition gyro_bias :: "calib \<Rightarrow> real list" where
  "gyro_bias st =
     map (\<lambda>x. x / comptime st) (map2 (*) (map real_of_int (gcomp st)) GYRO_FACTOR)"

text \<open>
  The loop runs on the reads the device delivers. A read of \<open>None\<close> is skipped by
  \<open>continue\<close>. The loop is left by \<open>break\<close> with the bias, the retained \<open>time2\<close>
  and the reads not yet consumed, or by an exception; when the given reads run out first,
  the loop is still waiting for the device, in the state \<open>Uncalibrated\<close>.
\<close>

datatype calibration_result =
    Calibrated "real list" int "read list"
  | Uncalibrated calib

fun calibration :: "calib \<Rightarrow> read list \<Rightarrow> error + calibration_result" where
  "calibration st [] = Inr (Uncalibrated st)"
| "calibration st (None # reads) = calibration st reads"
| "calibration st (Some data # reads) =
     (case calib_body st data of
        Inl e \<Rightarrow> Inl e
      | Inr st' \<Rightarrow>
          if comptime st' > 5 then Inr (Calibrated (gyro_bias st') (time2 st') reads)
          else calibration st' reads)"

subsection \<open>The fusion loop\<close>

text \<open>
  The filter (\<open>MadgwickAHRS\<close>) is a separate module; the loop is modelled by the
  arguments of its \<open>ahrs.update_imu\<close> calls: angular rate, acceleration and delta.
\<close>

type_synonym call = "real list \<times> int list \<times> real"

definition update_imu_args :: "real list \<Rightarrow> frame \<Rightarrow> real \<Rightarrow> call" where
  "update_imu_args gc fr delta =
     (map2 (*) (map2 (-) (map real_of_int (gyro fr)) gc) GYRO_FACTOR,
      map2 (*) (map (drop_bit 4) (acc fr)) ACC_FACTOR,
      delta)"

text \<open>
  One pass of the body of \<open>while Sensor or options.sim\<close> on a report that was read
  (without \<open>--sim\<close>): the calls made, and the new \<open>time2\<close> or the exception raised.
\<close>

definition fusion_body :: "real list \<Rightarrow> int \<Rightarrow> byte list \<Rightarrow> call list \<times> (error + int)" where
  "fusion_body gc t2 data =
     (case sensor_parse (py_slice data 16 32) of
        Inl e \<Rightarrow> ([], Inl e)
      | Inr frame1 \<Rightarrow>
          let time1 = timestamp frame1;
              call1 = update_imu_args gc frame1 (first_delta t2 time1)
          in (case sensor_parse (py_slice data 32 48) of
                Inl e \<Rightarrow> ([call1], Inl e)
              | Inr frame2 \<Rightarrow>
                  ([call1,
                    update_imu_args gc frame2 (second_delta time1 (timestamp frame2))],
                   Inr (timestamp frame2))))"

text \<open>
  Where a run stands when the given reads are used up: still in the calibration loop, in
  the fusion loop (with its bias and retained \<open>time2\<close>), or past both loops, which
  happens only when no device was found.
\<close>

datatype stage =
    Calibrating calib
  | Running "real list" int
  | Exited

fun fusion_loop :: "real list \<Rightarrow> int \<Rightarrow> read list \<Rightarrow> call list \<times> (error + stage)" where
  "fusion_loop gc t2 [] = ([], Inr (Running gc t2))"
| "fusion_loop gc t2 (None # reads) = fusion_loop gc t2 reads"
| "fusion_loop gc t2 (Some data # reads) =
     (case fusion_body gc t2 data of
        (calls, Inl e) \<Rightarrow> (calls, Inl e)
      | (calls, Inr t2') \<Rightarrow>
          (case fusion_loop gc t2' reads of (calls', r) \<Rightarrow> (calls @ calls', r)))"

subsection \<open>The script from the first read on\<close>

text \<open>
  \<open>opt_comp\<close> is the option \<open>--comp\<close>; \<open>Sensor\<close> is \<open>None\<close> when no device was
  found and otherwise the reads the device delivers. The option \<open>--sim\<close>, which
  replaces the device by constant filter inputs, is taken to be off.
\<close>

definition main :: "bool \<Rightarrow> read list option \<Rightarrow> call list \<times> (error + stage)" where
  "main opt_comp Sensor =
     (case Sensor of
        None \<Rightarrow> ([], Inr Exited)
      | Some reads \<Rightarrow>
          if opt_comp then
            (case calibration \<lparr>time2 = time2_init, gcomp = gcomp_init,
                                comptime = comptime_init\<rparr> reads of
               Inl e \<Rightarrow> ([], Inl e)
             | Inr (Uncalibrated st) \<Rightarrow> ([], Inr (Calibrating st))
             | Inr (Calibrated bias t2 rest) \<Rightarrow> fusion_loop bias t2 rest)
          else fusion_loop (map real_of_int gcomp_init) time2_init reads)"

subsection \<open>Building: the three VRidge structs\<close>

text \<open>
  A construct builder returns the bytes of a value or raises. \<open>Int32ul\<close> packs an
  integer of 32 bits, low byte first.
\<close>

definition Int32ul_build :: "int \<Rightarrow> error + byte list" where
  "Int32ul_build n =
     (if 0 \<le> n \<and> n < 2 ^ 32
      then Inr [word_of_int n, word_of_int (n div 256), word_of_int (n div 65536),
                word_of_int (n div 16777216)]
      else Inl FormatFieldError)"

text \<open>
  \<open>Float32l\<close> packs a Python float as IEEE binary32, low byte first. The rounding of a
  value to its binary32 bit pattern is the parameter \<open>f32\<close>; it is \<open>None\<close> where
  packing raises (a finite value too large for binary32).
\<close>

definition le32 :: "32 word \<Rightarrow> byte list" where
  "le32 w = [ucast w, ucast (drop_bit 8 w), ucast (drop_bit 16 w), ucast (drop_bit 24 w)]"

definition Float32l_build :: "(real \<Rightarrow> 32 word option) \<Rightarrow> real \<Rightarrow> error + byte list" where
  "Float32l_build f32 v =
     (case f32 v of None \<Rightarrow> Inl FormatFieldError | Some w \<Rightarrow> Inr (le32 w))"

text \<open>Building the members of a sequence one after the other, as \<open>Struct\<close> and \<open>Array\<close> do.\<close>

fun build_seq :: "(error + byte list) list \<Rightarrow> error + byte list" where
  "build_seq [] = Inr []"
| "build_seq (m # ms) =
     (case m of
        Inl e \<Rightarrow> Inl e
      | Inr bs \<Rightarrow> (case build_seq ms of Inl e \<Rightarrow> Inl e | Inr rest \<Rightarrow> Inr (bs @ rest)))"

text \<open>\<open>Array(n, subcon)\<close> raises \<open>RangeError\<close> unless it is given exactly \<open>n\<close> items.\<close>

definition Array_build :: "nat \<Rightarrow> ('a \<Rightarrow> error + byte list) \<Rightarrow> 'a list \<Rightarrow> error + byte list" where
  "Array_build n sub vals =
     (if length vals \<noteq> n then Inl RangeError else build_seq (map sub vals))"

text \<open>
  \<open>Padded(length, subcon)\<close> appends zero bytes up to \<open>length\<close> and raises
  \<open>PaddingError\<close> when the subcon built more than that.
\<close>

definition Padded_build :: "nat \<Rightarrow> error + byte list \<Rightarrow> error + byte list" where
  "Padded_build len sub =
     (case sub of
        Inl e \<Rightarrow> Inl e
      | Inr bs \<Rightarrow>
          if len < length bs then Inl PaddingError
          else Inr (bs @ replicate (len - length bs) 0))"

definition anglesposition_build :: "(real \<Rightarrow> 32 word option) \<Rightarrow> real list \<Rightarrow> error + byte list" where
  "anglesposition_build f32 data =
     build_seq [Int32ul_build 2, Int32ul_build 3, Int32ul_build 24,
                Padded_build 64 (Array_build 6 (Float32l_build f32) data)]"

definition quaternionposition_build :: "(real \<Rightarrow> 32 word option) \<Rightarrow> real list \<Rightarrow> error + byte list" where
  "quaternionposition_build f32 data =
     build_seq [Int32ul_build 2, Int32ul_build 4, Int32ul_build 24,
                Padded_build 64 (Array_build 7 (Float32l_build f32) data)]"

definition justposition_build :: "(real \<Rightarrow> 32 word option) \<Rightarrow> real list \<Rightarrow> error + byte list" where
  "justposition_build f32 data =
     build_seq [Int32ul_build 2, Int32ul_build 5, Int32ul_build 24,
                Padded_build 64 (Array_build 3 (Float32l_build f32) data)]"

text \<open>
  The message of one tick (the script's \<open>output\<close>): from \<open>ahrs.quaternion.yaw_pitch_roll\<close> with \<open>--angle\<close>,
  from \<open>ahrs.quaternion.elements\<close> otherwise, followed by the position \<open>pos\<close>
  (the script's \<open>position\<close>).
\<close>

definition build_output ::
  "(real \<Rightarrow> 32 word option) \<Rightarrow> bool \<Rightarrow> real \<times> real \<times> real \<Rightarrow> real \<times> real \<times> real \<times> real
     \<Rightarrow> real list \<Rightarrow> error + byte list"
where
  "build_output f32 angle yaw_pitch_roll elements pos =
     (if angle then
        (case yaw_pitch_roll of (y, p, r) \<Rightarrow> anglesposition_build f32 ([p, y, r] @ pos))
      else
        (case elements of (w, x, y, z) \<Rightarrow> quaternionposition_build f32 ([y, z, x, w] @ pos)))"

subsection \<open>The calibration loop in binary64\<close>

text \<open>
  The elapsed times and \<open>comptime\<close> are Python floats, and the loop is left on the
  test \<open>comptime > 5\<close>, so the rounding of every division and addition can decide when
  it is left. \<open>fl\<close> is the rounding of a real result to binary64; it is a parameter.
  \<open>(time1 - time2) / 1000000\<close> and \<open>500 / 1000000\<close> are the rounded quotients,
  \<open>comptime + delta\<close> the rounded sum, and \<open>gcomp * GYRO_FACTOR / comptime\<close> a
  rounded product divided with rounding. With the identity for \<open>fl\<close> these are
  \<open>calib_body\<close>, \<open>gyro_bias\<close>, \<open>calibration\<close> and \<open>main\<close> above.
\<close>

definition calib_body_fl :: "(real \<Rightarrow> real) \<Rightarrow> calib \<Rightarrow> byte list \<Rightarrow> error + calib" where
  "calib_body_fl fl st data =
     (case sensor_parse (py_slice data 16 32) of
        Inl e \<Rightarrow> Inl e
      | Inr frame1 \<Rightarrow>
          let time1 = timestamp frame1;
              delta1 = fl (first_delta (time2 st) time1);
              gcomp1 = map2 (+) (gcomp st) (gyro frame1);
              comptime1 = fl (comptime st + delta1)
          in (case sensor_parse (py_slice data 32 48) of
                Inl e \<Rightarrow> Inl e
              | Inr frame2 \<Rightarrow>
                  let delta2 = fl (second_delta time1 (timestamp frame2))
                  in Inr \<lparr>time2 = timestamp frame2,
                          gcomp = map2 (+) gcomp1 (gyro frame2),
                          comptime = fl (comptime1 + delta2)\<rparr>))"

definition gyro_bias_fl :: "(real \<Rightarrow> real) \<Rightarrow> calib \<Rightarrow> real list" where
  "gyro_bias_fl fl st =
     map (\<lambda>x. fl (x / comptime st))
         (map2 (\<lambda>g f. fl (g * f)) (map real_of_int (gcomp st)) GYRO_FACTOR)"

fun calibration_fl :: "(real \<Rightarrow> real) \<Rightarrow> calib \<Rightarrow> read list \<Rightarrow> error + calibration_result" where
  "calibration_fl fl st [] = Inr (Uncalibrated st)"
| "calibration_fl fl st (None # reads) = calibration_fl fl st reads"
| "calibration_fl fl st (Some data # reads) =
     (case calib_body_fl fl st data of
        Inl e \<Rightarrow> Inl e
      | Inr st' \<Rightarrow>
          if comptime st' > 5 then Inr (Calibrated (gyro_bias_fl fl st') (time2 st') reads)
          else calibration_fl fl st' reads)"

definition main_fl ::
  "(real \<Rightarrow> real) \<Rightarrow> bool \<Rightarrow> read list option \<Rightarrow> call list \<times> (error + stage)"
where
  "main_fl fl opt_comp Sensor =
     (case Sensor of
        None \<Rightarrow> ([], Inr Exited)
      | Some reads \<Rightarrow>
          if opt_comp then
            (case calibration_fl fl \<lparr>time2 = time2_init, gcomp = gcomp_init,
                                      comptime = comptime_init\<rparr> reads of
               Inl e \<Rightarrow> ([], Inl e)
             | Inr (Uncalibrated st) \<Rightarrow> ([], Inr (Calibrating st))
             | Inr (Calibrated bias t2 rest) \<Rightarrow> fusion_loop bias t2 rest)
          else fusion_loop (map real_of_int gcomp_init) time2_init reads)"

subsection \<open>The samples of a stream of reads, and their sums\<close>

text \<open>
  What the loops are measured against. \<open>subframes\<close> lists the sub-frames decoded from
  the reads, in the order of the stream, up to the first block that cannot be decoded.
  \<open>decoded_reports\<close> lists the two sub-frames of every report, up to the first block
  that does not hold both.
\<close>

fun subframes :: "read list \<Rightarrow> frame list" where
  "subframes [] = []"
| "subframes (None # reads) = subframes reads"
| "subframes (Some data # reads) =
     (case sensor_parse (py_slice data 16 32) of
        Inl e \<Rightarrow> []
      | Inr f1 \<Rightarrow>
          (case sensor_parse (py_slice data 32 48) of
             Inl e \<Rightarrow> [f1]
           | Inr f2 \<Rightarrow> f1 # f2 # subframes reads))"

fun decoded_reports :: "read list \<Rightarrow> (frame \<times> frame) list" where
  "decoded_reports [] = []"
| "decoded_reports (None # reads) = decoded_reports reads"
| "decoded_reports (Some data # reads) =
     (case sensor_parse (py_slice data 16 32) of
        Inl e \<Rightarrow> []
      | Inr f1 \<Rightarrow>
          (case sensor_parse (py_slice data 32 48) of
             Inl e \<Rightarrow> []
           | Inr f2 \<Rightarrow> (f1, f2) # decoded_reports reads))"

text \<open>
  The sum of the gyro counts of all sub-frames of the reports, added to \<open>g\<close>; the
  elapsed times of all their sub-frames, each timed against the sub-frame before it (the
  first one against \<open>t\<close>), added one by one to \<open>c\<close> in binary64; and the timestamp
  of the last sub-frame.
\<close>

fun summed_rate :: "int list \<Rightarrow> (frame \<times> frame) list \<Rightarrow> int list" where
  "summed_rate g [] = g"
| "summed_rate g ((f1, f2) # rs) = summed_rate (map2 (+) (map2 (+) g (gyro f1)) (gyro f2)) rs"

fun accumulated_time :: "(real \<Rightarrow> real) \<Rightarrow> real \<Rightarrow> int \<Rightarrow> (frame \<times> frame) list \<Rightarrow> real" where
  "accumulated_time fl c t [] = c"
| "accumulated_time fl c t ((f1, f2) # rs) =
     accumulated_time fl
       (fl (fl (c + fl (first_delta t (timestamp f1)))
              + fl (second_delta (timestamp f1) (timestamp f2))))
       (timestamp f2) rs"

fun last_timestamp :: "int \<Rightarrow> (frame \<times> frame) list \<Rightarrow> int" where
  "last_timestamp t [] = t"
| "last_timestamp t ((f1, f2) # rs) = last_timestamp (timestamp f2) rs"

section \<open>The decoder on long and short blocks\<close>

lemma Int32ul_parse_short: "length bs < 4 \<Longrightarrow> Int32ul_parse bs = Inl StreamError"
  by (simp add: Int32ul_parse_def)

lemma Int16sl_parse_ok:
  "2 \<le> length bs \<Longrightarrow> \<exists>v. Int16sl_parse bs = Inr (v, drop 2 bs)"
  by (simp add: Int16sl_parse_def Let_def)

lemma Int16sl_parse_short: "length bs < 2 \<Longrightarrow> Int16sl_parse bs = Inl StreamError"
  by (simp add: Int16sl_parse_def)

lemma Array_parse_3:
  "Array_parse 3 p bs =
     (case p bs of Inl e \<Rightarrow> Inl e
      | Inr (x0, r0) \<Rightarrow>
          (case p r0 of Inl e \<Rightarrow> Inl e
           | Inr (x1, r1) \<Rightarrow>
               (case p r1 of Inl e \<Rightarrow> Inl e
                | Inr (x2, r2) \<Rightarrow> Inr ([x0, x1, x2], r2))))"
  by (simp add: numeral_3_eq_3 split: sum.splits prod.splits)

lemma Array3_ok:
  assumes "6 \<le> length bs"
  shows "\<exists>v0 v1 v2. Array_parse 3 Int16sl_parse bs = Inr ([v0, v1, v2], drop 6 bs)"
proof -
  have l0: "2 \<le> length bs" and l1: "2 \<le> length (drop 2 bs)"
    and l2: "2 \<le> length (drop 2 (drop 2 bs))"
    using assms by simp_all
  obtain v0 where a: "Int16sl_parse bs = Inr (v0, drop 2 bs)"
    using Int16sl_parse_ok [OF l0] by blast
  obtain v1 where b: "Int16sl_parse (drop 2 bs) = Inr (v1, drop 2 (drop 2 bs))"
    using Int16sl_parse_ok [OF l1] by blast
  obtain v2 where c:
    "Int16sl_parse (drop 2 (drop 2 bs)) = Inr (v2, drop 2 (drop 2 (drop 2 bs)))"
    using Int16sl_parse_ok [OF l2] by blast
  have "Array_parse 3 Int16sl_parse bs = Inr ([v0, v1, v2], drop 2 (drop 2 (drop 2 bs)))"
    by (simp only: Array_parse_3 a b c sum.case prod.case)
  then show ?thesis by simp
qed

lemma Array3_short:
  assumes "length bs < 6"
  shows "Array_parse 3 Int16sl_parse bs = Inl StreamError"
proof -
  consider "length bs < 2" | "2 \<le> length bs" "length bs < 4" | "4 \<le> length bs"
    by linarith
  then show ?thesis
  proof cases
    case 1
    then show ?thesis by (simp add: Array_parse_3 Int16sl_parse_short)
  next
    case 2
    obtain v0 where a: "Int16sl_parse bs = Inr (v0, drop 2 bs)"
      using Int16sl_parse_ok [OF 2(1)] by blast
    have b: "Int16sl_parse (drop 2 bs) = Inl StreamError"
      using 2 by (simp add: Int16sl_parse_short)
    show ?thesis by (simp only: Array_parse_3 a b sum.case prod.case)
  next
    case 3
    then have l0: "2 \<le> length bs" and l1: "2 \<le> length (drop 2 bs)"
      by simp_all
    obtain v0 where a: "Int16sl_parse bs = Inr (v0, drop 2 bs)"
      using Int16sl_parse_ok [OF l0] by blast
    obtain v1 where b: "Int16sl_parse (drop 2 bs) = Inr (v1, drop 2 (drop 2 bs))"
      using Int16sl_parse_ok [OF l1] by blast
    have c: "Int16sl_parse (drop 2 (drop 2 bs)) = Inl StreamError"
      using assms by (simp add: Int16sl_parse_short)
    show ?thesis by (simp only: Array_parse_3 a b c sum.case prod.case)
  qed
qed

lemma Int32ul_range:
  "Int32ul_parse bs = Inr (t, r) \<Longrightarrow> 0 \<le> t \<and> t < 2 ^ 32"
proof -
  assume a: "Int32ul_parse bs = Inr (t, r)"
  have b: "\<And>b :: byte. 0 \<le> uint b \<and> uint b \<le> 255"
  proof -
    fix b :: byte
    have "uint b < 2 ^ 8" using uint_bounded [of b] by simp
    then show "0 \<le> uint b \<and> uint b \<le> 255" by simp
  qed
  from a have t: "t = uint (bs ! 0) + 256 * uint (bs ! 1) + 65536 * uint (bs ! 2)
                  + 16777216 * uint (bs ! 3)"
    by (auto simp: Int32ul_parse_def split: if_splits)
  show ?thesis
    using b [of "bs ! 0"] b [of "bs ! 1"] b [of "bs ! 2"] b [of "bs ! 3"]
    unfolding t by simp
qed

lemma sensor_parse_ok:
  assumes "16 \<le> length bs"
  shows "\<exists>t g0 g1 g2 a0 a1 a2.
           sensor_parse bs = Inr \<lparr>timestamp = t, gyro = [g0, g1, g2], acc = [a0, a1, a2]\<rparr>
           \<and> 0 \<le> t \<and> t < 2 ^ 32 \<and> Int32ul_parse bs = Inr (t, drop 4 bs)"
proof -
  have l1: "6 \<le> length (drop 4 bs)" and l2: "6 \<le> length (drop 6 (drop 4 bs))"
    using assms by simp_all
  obtain t where t: "Int32ul_parse bs = Inr (t, drop 4 bs)"
    using assms by (simp add: Int32ul_parse_def)
  obtain g0 g1 g2 where g:
    "Array_parse 3 Int16sl_parse (drop 4 bs) = Inr ([g0, g1, g2], drop 6 (drop 4 bs))"
    using Array3_ok [OF l1] by blast
  obtain a0 a1 a2 where a:
    "Array_parse 3 Int16sl_parse (drop 6 (drop 4 bs))
       = Inr ([a0, a1, a2], drop 6 (drop 6 (drop 4 bs)))"
    using Array3_ok [OF l2] by blast
  have "sensor_parse bs = Inr \<lparr>timestamp = t, gyro = [g0, g1, g2], acc = [a0, a1, a2]\<rparr>"
    unfolding sensor_parse_def by (simp only: t g a sum.case prod.case)
  then show ?thesis using Int32ul_range [OF t] t by blast
qed

lemma sensor_parse_short:
  assumes "length bs < 16"
  shows "sensor_parse bs = Inl StreamError"
proof -
  consider "length bs < 4" | "4 \<le> length bs" "length bs < 10" | "10 \<le> length bs"
    by linarith
  then show ?thesis
  proof cases
    case 1
    then show ?thesis by (simp add: sensor_parse_def Int32ul_parse_short)
  next
    case 2
    then have t: "Int32ul_parse bs = Inr (fst (projr (Int32ul_parse bs)), drop 4 bs)"
      by (simp add: Int32ul_parse_def)
    have "Array_parse 3 Int16sl_parse (drop 4 bs) = Inl StreamError"
      using 2 by (intro Array3_short) simp
    then show ?thesis
      unfolding sensor_parse_def by (subst t) (simp only: sum.case prod.case)
  next
    case 3
    then have l1: "6 \<le> length (drop 4 bs)" by simp
    from 3 have t: "Int32ul_parse bs = Inr (fst (projr (Int32ul_parse bs)), drop 4 bs)"
      by (simp add: Int32ul_parse_def)
    obtain g0 g1 g2 where g:
      "Array_parse 3 Int16sl_parse (drop 4 bs) = Inr ([g0, g1, g2], drop 6 (drop 4 bs))"
      using Array3_ok [OF l1] by blast
    have a: "Array_parse 3 Int16sl_parse (drop 6 (drop 4 bs)) = Inl StreamError"
      using assms by (intro Array3_short) simp
    show ?thesis
      unfolding sensor_parse_def by (subst t) (simp only: g a sum.case prod.case)
  qed
qed


lemma Int16sl_range:
  assumes "Int16sl_parse bs = Inr (v, r)"
  shows "- 32768 \<le> v \<and> v < 32768"
proof -
  have b: "\<And>b :: byte. 0 \<le> uint b \<and> uint b \<le> 255"
  proof -
    fix b :: byte
    have "uint b < 2 ^ 8" using uint_bounded [of b] by simp
    then show "0 \<le> uint b \<and> uint b \<le> 255" by simp
  qed
  define u where "u = uint (bs ! 0) + 256 * uint (bs ! 1)"
  have v: "v = (if 32768 \<le> u then u - 65536 else u)"
    using assms by (auto simp: Int16sl_parse_def Let_def u_def split: if_splits)
  have "0 \<le> u" "u \<le> 65535"
    using b [of "bs ! 0"] b [of "bs ! 1"] by (simp_all add: u_def)
  then show ?thesis unfolding v by simp
qed

lemma fusion_body_ok:
  assumes "48 \<le> length data"
  shows "\<exists>f1 f2. sensor_parse (py_slice data 16 32) = Inr f1
           \<and> sensor_parse (py_slice data 32 48) = Inr f2
           \<and> fusion_body gc t2 data =
               ([update_imu_args gc f1 (first_delta t2 (timestamp f1)),
                 update_imu_args gc f2 (second_delta (timestamp f1) (timestamp f2))],
                Inr (timestamp f2))"
proof -
  have l1: "16 \<le> length (py_slice data 16 32)" and l2: "16 \<le> length (py_slice data 32 48)"
    using assms by (simp_all add: py_slice_def)
  obtain f1 where f1: "sensor_parse (py_slice data 16 32) = Inr f1"
    using sensor_parse_ok [OF l1] by blast
  obtain f2 where f2: "sensor_parse (py_slice data 32 48) = Inr f2"
    using sensor_parse_ok [OF l2] by blast
  show ?thesis
    using f1 f2 by (simp add: fusion_body_def Let_def)
qed

lemma fusion_body_short2:
  assumes "32 \<le> length data" "length data < 48"
  shows "\<exists>f1. sensor_parse (py_slice data 16 32) = Inr f1
           \<and> fusion_body gc t2 data =
               ([update_imu_args gc f1 (first_delta t2 (timestamp f1))], Inl StreamError)"
proof -
  have l1: "16 \<le> length (py_slice data 16 32)" and l2: "length (py_slice data 32 48) < 16"
    using assms by (simp_all add: py_slice_def)
  obtain f1 where f1: "sensor_parse (py_slice data 16 32) = Inr f1"
    using sensor_parse_ok [OF l1] by blast
  show ?thesis
    using f1 sensor_parse_short [OF l2] by (simp add: fusion_body_def Let_def)
qed

lemma fusion_body_short1:
  assumes "length data < 32"
  shows "fusion_body gc t2 data = ([], Inl StreamError)"
proof -
  have l1: "length (py_slice data 16 32) < 16"
    using assms by (simp add: py_slice_def)
  show ?thesis
    using sensor_parse_short [OF l1] by (simp add: fusion_body_def)
qed

lemma calib_body_ok:
  assumes "48 \<le> length data"
  shows "\<exists>f1 f2. sensor_parse (py_slice data 16 32) = Inr f1
           \<and> sensor_parse (py_slice data 32 48) = Inr f2
           \<and> calib_body st data =
               Inr \<lparr>time2 = timestamp f2,
                    gcomp = map2 (+) (map2 (+) (gcomp st) (gyro f1)) (gyro f2),
                    comptime = comptime st + first_delta (time2 st) (timestamp f1)
                                 + second_delta (timestamp f1) (timestamp f2)\<rparr>"
proof -
  have l1: "16 \<le> length (py_slice data 16 32)" and l2: "16 \<le> length (py_slice data 32 48)"
    using assms by (simp_all add: py_slice_def)
  obtain f1 where f1: "sensor_parse (py_slice data 16 32) = Inr f1"
    using sensor_parse_ok [OF l1] by blast
  obtain f2 where f2: "sensor_parse (py_slice data 32 48) = Inr f2"
    using sensor_parse_ok [OF l2] by blast
  show ?thesis
    using f1 f2 by (simp add: calib_body_def Let_def)
qed

lemma calib_body_short:
  assumes "length data < 48"
  shows "calib_body st data = Inl StreamError"
proof (cases "length data < 32")
  case True
  then have "length (py_slice data 16 32) < 16" by (simp add: py_slice_def)
  from sensor_parse_short [OF this] show ?thesis by (simp add: calib_body_def)
next
  case False
  then have l1: "16 \<le> length (py_slice data 16 32)" and l2: "length (py_slice data 32 48) < 16"
    using assms by (simp_all add: py_slice_def)
  obtain f1 where f1: "sensor_parse (py_slice data 16 32) = Inr f1"
    using sensor_parse_ok [OF l1] by blast
  show ?thesis
    using f1 sensor_parse_short [OF l2] by (simp add: calib_body_def Let_def)
qed


lemma first_delta_no_predecessor: "0 \<le> n \<Longrightarrow> first_delta 0 n = 5 / 10000"
  by (simp add: first_delta_def)

section \<open>Elapsed time\<close>

text \<open>
  C4. Two raw timestamps that are both 24-bit counter values never give a negative
  elapsed time, in the statements timing the first sub-frame and in those timing the
  second (which the calibration loop and the fusion loop both contain): when the newer
  value is below the older one, \<open>2 ^ 24\<close> is taken off the older value before the
  difference is formed.
\<close>

theorem elapsed_never_negative:
  assumes "0 \<le> t_prev" "t_prev < 2 ^ 24" "0 \<le> t_new" "t_new < 2 ^ 24"
  shows "0 \<le> first_delta t_prev t_new \<and> 0 \<le> second_delta t_prev t_new
         \<and> (t_new < t_prev \<longrightarrow>
              first_delta t_prev t_new = real_of_int (t_new - (t_prev - 2 ^ 24)) / 1000000
              \<and> second_delta t_prev t_new = real_of_int (t_new - (t_prev - 2 ^ 24)) / 1000000)"
  using assms by (simp add: first_delta_def second_delta_def Let_def)

theorem elapsed_never_negative_witness:
  "(0::int) \<le> 16777215 \<and> (16777215::int) < 2 ^ 24 \<and> (0::int) \<le> 5 \<and> (5::int) < 2 ^ 24
   \<and> 0 \<le> first_delta 16777215 5 \<and> 0 \<le> second_delta 16777215 5
   \<and> first_delta 16777215 5 = 6 / 1000000 \<and> second_delta 16777215 5 = 6 / 1000000"
  using elapsed_never_negative [of 16777215 5] by simp

text \<open>
  C3, as amended. The four raw timestamps 16777200, 16777215, 5, 20 have three successive
  pairs, and their elapsed times are 15, 6 and 15 microseconds: there is no pair with
  10 microseconds. Two reports carrying these four timestamps, read from the start of a
  run, give the filter the deltas 500 (the default of the first sample), 15, 6 and 15
  microseconds.
\<close>

theorem wraparound_deltas:
  "first_delta 16777200 16777215 = 15 / 1000000
   \<and> second_delta 16777215 5 = 6 / 1000000
   \<and> first_delta 5 20 = 15 / 1000000
   \<and> map (snd \<circ> snd) (fst (fusion_loop gc time2_init
        [Some (replicate 16 0 @ [0xF0, 0xFF, 0xFF, 0, 0, 0, 0, 0, 0, 0, 0, 0, 0, 0, 0, 0]
                 @ [0xFF, 0xFF, 0xFF, 0, 0, 0, 0, 0, 0, 0, 0, 0, 0, 0, 0, 0] @ replicate 16 0),
         Some (replicate 16 0 @ [5, 0, 0, 0, 0, 0, 0, 0, 0, 0, 0, 0, 0, 0, 0, 0]
                 @ [20, 0, 0, 0, 0, 0, 0, 0, 0, 0, 0, 0, 0, 0, 0, 0] @ replicate 16 0)]))
     = [500 / 1000000, 15 / 1000000, 6 / 1000000, 15 / 1000000]"
  by (simp add: py_slice_def sensor_parse_def Int32ul_parse_def Int16sl_parse_def Array_parse_3
     fusion_body_def update_imu_args_def first_delta_def second_delta_def time2_init_def Let_def)

text \<open>
  The deltas that C3 lists, 15, 10, 6 and 15 microseconds, are not those of the three
  pairs: the pair 16777215, 5 across the wrap gives 6 microseconds, and no pair gives 10.
\<close>

theorem wraparound_deltas_counterexample:
  "[first_delta 16777200 16777215, second_delta 16777215 5, first_delta 5 20]
     \<noteq> [15 / 1000000, 10 / 1000000, 6 / 1000000, 15 / 1000000]
   \<and> second_delta 16777215 5 \<noteq> 10 / 1000000
   \<and> 10 / 1000000 \<notin> set [first_delta 16777200 16777215, second_delta 16777215 5,
                             first_delta 5 20]"
  by (simp add: first_delta_def second_delta_def)

text \<open>
  C5. The first sample of a run has no predecessor (\<open>time2\<close> is still its initial
  value): whatever the first report holds, the delta given to the filter for its first
  sub-frame is 0.0005 seconds, and with \<open>--comp\<close> the calibration loop counts 0.0005
  seconds for it.
\<close>

theorem first_sample_default:
  assumes "32 \<le> length data"
  shows "(\<exists>rate accel more.
            fst (main False (Some (Some data # reads))) = (rate, accel, 5 / 10000) # more)
         \<and> (\<forall>st'. calib_body \<lparr>time2 = time2_init, gcomp = gcomp_init,
                                 comptime = comptime_init\<rparr> data = Inr st'
               \<longrightarrow> (\<exists>f1 f2. sensor_parse (py_slice data 16 32) = Inr f1
                      \<and> sensor_parse (py_slice data 32 48) = Inr f2
                      \<and> comptime st' = 5 / 10000 + second_delta (timestamp f1) (timestamp f2)))"
proof -
  have l1: "16 \<le> length (py_slice data 16 32)"
    using assms by (simp add: py_slice_def)
  obtain f1 where f1: "sensor_parse (py_slice data 16 32) = Inr f1" and t: "0 \<le> timestamp f1"
    using sensor_parse_ok [OF l1] by force
  have d: "first_delta time2_init (timestamp f1) = 5 / 10000"
    using first_delta_no_predecessor [OF t] by (simp add: time2_init_def)
  have "\<exists>more. fst (fusion_body gc time2_init data)
          = update_imu_args gc f1 (5 / 10000) # more" for gc
    unfolding fusion_body_def Let_def f1 sum.case d
    by (cases "sensor_parse (py_slice data 32 48)") simp_all
  then obtain more where
    "fst (fusion_body (map real_of_int gcomp_init) time2_init data)
       = update_imu_args (map real_of_int gcomp_init) f1 (5 / 10000) # more"
    by blast
  then have a: "\<exists>rate accel more.
           fst (main False (Some (Some data # reads))) = (rate, accel, 5 / 10000) # more"
    by (auto simp: main_def update_imu_args_def split: prod.splits sum.splits)
  have b: "\<exists>f1 f2. sensor_parse (py_slice data 16 32) = Inr f1
               \<and> sensor_parse (py_slice data 32 48) = Inr f2
               \<and> comptime st' = 5 / 10000 + second_delta (timestamp f1) (timestamp f2)"
    if "calib_body \<lparr>time2 = time2_init, gcomp = gcomp_init, comptime = comptime_init\<rparr> data
           = Inr st'" for st'
    using that unfolding calib_body_def Let_def f1 sum.case select_convs d
    by (cases "sensor_parse (py_slice data 32 48)") (auto simp: comptime_init_def)
  from a b show ?thesis by blast
qed

theorem first_sample_default_witness:
  "32 \<le> length (replicate 64 (0 :: byte))
   \<and> (\<exists>rate accel more.
         fst (main False (Some [Some (replicate 64 0)])) = (rate, accel, 5 / 10000) # more)"
  using first_sample_default [of "replicate 64 0" "[]"] by simp

text \<open>
  C10. A retained raw timestamp of exactly 0 is taken for "no predecessor": the test is
  \<open>if time2:\<close> on the stored value. The first sub-frame is then timed 0.0005 seconds,
  which is the true difference only when the new timestamp is 500; and after a report
  whose second timestamp is 0 the fusion loop goes on exactly as a fresh run does.
\<close>

theorem zero_timestamp_taken_for_no_predecessor:
  assumes "0 \<le> t_new"
  shows "first_delta 0 t_new = 5 / 10000
         \<and> (first_delta 0 t_new = real_of_int (t_new - 0) / 1000000 \<longleftrightarrow> t_new = 500)
         \<and> (\<forall>gc t2 data0 reads.
               snd (fusion_body gc t2 data0) = Inr 0 \<longrightarrow>
               fusion_loop gc t2 (Some data0 # reads)
                 = (fst (fusion_body gc t2 data0) @ fst (fusion_loop gc time2_init reads),
                    snd (fusion_loop gc time2_init reads)))"
proof -
  have a: "first_delta 0 t_new = 5 / 10000"
    using assms by (simp add: first_delta_def)
  have b: "first_delta 0 t_new = real_of_int (t_new - 0) / 1000000 \<longleftrightarrow> t_new = 500"
    unfolding a by auto
  have c: "fusion_loop gc t2 (Some data0 # reads)
                 = (fst (fusion_body gc t2 data0) @ fst (fusion_loop gc time2_init reads),
                    snd (fusion_loop gc time2_init reads))"
    if "snd (fusion_body gc t2 data0) = Inr 0" for gc t2 data0 reads
    using that by (cases "fusion_body gc t2 data0")
      (simp add: time2_init_def split: prod.splits)
  from a b c show ?thesis by blast
qed

theorem zero_timestamp_taken_for_no_predecessor_witness:
  "(0::int) \<le> 1000 \<and> first_delta 0 1000 = 5 / 10000
   \<and> first_delta 0 1000 \<noteq> real_of_int (1000 - 0) / 1000000"
  using zero_timestamp_taken_for_no_predecessor [of 1000] by simp

section \<open>The angular rate given to the filter\<close>

lemma sensor_parse_gyro:
  assumes "sensor_parse bs = Inr fr"
  shows "\<exists>g0 g1 g2. gyro fr = [g0, g1, g2]
           \<and> - 32768 \<le> g0 \<and> g0 < 32768 \<and> - 32768 \<le> g1 \<and> g1 < 32768
           \<and> - 32768 \<le> g2 \<and> g2 < 32768"
proof -
  obtain t r1 where t: "Int32ul_parse bs = Inr (t, r1)"
    using assms by (auto simp: sensor_parse_def split: sum.splits)
  obtain g r2 where g: "Array_parse 3 Int16sl_parse r1 = Inr (g, r2)"
    using assms t by (auto simp: sensor_parse_def split: sum.splits)
  have fr: "gyro fr = g"
    using assms t g by (auto simp: sensor_parse_def split: sum.splits)
  from g obtain g0 g1 g2 s0 s1 where
    "Int16sl_parse r1 = Inr (g0, s0)" "Int16sl_parse s0 = Inr (g1, s1)"
    "Int16sl_parse s1 = Inr (g2, r2)" "g = [g0, g1, g2]"
    by (auto simp: Array_parse_3 split: sum.splits)
  then show ?thesis
    using Int16sl_range fr by blast
qed

lemma fusion_loop_rates:
  "map fst (fst (fusion_loop gc t2 reads))
     = map (\<lambda>fr. map2 (*) (map2 (-) (map real_of_int (gyro fr)) gc) GYRO_FACTOR)
           (subframes reads)"
proof (induction gc t2 reads rule: fusion_loop.induct)
  case (1 gc t2)
  show ?case by simp
next
  case (2 gc t2 reads)
  then show ?case by simp
next
  case (3 gc t2 data reads)
  show ?case
  proof (cases "sensor_parse (py_slice data 16 32)")
    case (Inl e)
    then show ?thesis by (simp add: fusion_body_def)
  next
    case f1: (Inr f1)
    show ?thesis
    proof (cases "sensor_parse (py_slice data 32 48)")
      case (Inl e)
      with f1 show ?thesis
        by (simp add: fusion_body_def Let_def update_imu_args_def)
    next
      case f2: (Inr f2)
      have b: "fusion_body gc t2 data =
               ([update_imu_args gc f1 (first_delta t2 (timestamp f1)),
                 update_imu_args gc f2 (second_delta (timestamp f1) (timestamp f2))],
                Inr (timestamp f2))"
        using f1 f2 by (simp add: fusion_body_def Let_def)
      obtain cs r where l: "fusion_loop gc (timestamp f2) reads = (cs, r)"
        by force
      from "3.IH" [OF b [symmetric] refl] f1 f2 b l show ?thesis
        by (simp add: update_imu_args_def)
    qed
  qed
qed

lemma subframes_gyro:
  assumes "fr \<in> set (subframes reads)"
  shows "\<exists>g0 g1 g2. gyro fr = [g0, g1, g2]
           \<and> - 32768 \<le> g0 \<and> g0 < 32768 \<and> - 32768 \<le> g1 \<and> g1 < 32768
           \<and> - 32768 \<le> g2 \<and> g2 < 32768"
  using assms
proof (induction reads rule: subframes.induct)
  case 1
  then show ?case by simp
next
  case (2 reads)
  then show ?case by simp
next
  case (3 data reads)
  show ?case
  proof (cases "sensor_parse (py_slice data 16 32)")
    case (Inl e)
    with 3(2) show ?thesis by simp
  next
    case f1: (Inr f1)
    show ?thesis
    proof (cases "sensor_parse (py_slice data 32 48)")
      case (Inl e)
      with f1 3(2) have "fr = f1" by simp
      with sensor_parse_gyro [OF f1] show ?thesis by simp
    next
      case f2: (Inr f2)
      with f1 3(2) consider "fr = f1" | "fr = f2" | "fr \<in> set (subframes reads)"
        by auto
      then show ?thesis
      proof cases
        case 1
        with sensor_parse_gyro [OF f1] show ?thesis by simp
      next
        case 2
        with sensor_parse_gyro [OF f2] show ?thesis by simp
      next
        case 3
        from "3.IH" [OF f1 f2 this] show ?thesis .
      qed
    qed
  qed
qed

lemma rate_components:
  assumes "gyro fr = [g0, g1, g2]"
  shows "map2 (*) (map2 (-) (map real_of_int (gyro fr)) [b0, b1, b2]) GYRO_FACTOR
           = [(real_of_int (gyro fr ! 0) - b0) * ((1998 / 2 ^ 15) * (pi / 180)),
              (real_of_int (gyro fr ! 1) - b1) * ((1998 / 2 ^ 15) * (pi / 180)),
              (real_of_int (gyro fr ! 2) - b2) * - ((1998 / 2 ^ 15) * (pi / 180))]"
  using assms by (simp add: GYRO_FACTOR_def)

lemma subframes_full:
  assumes "48 \<le> length data"
  shows "\<exists>f1 f2. sensor_parse (py_slice data 16 32) = Inr f1
           \<and> sensor_parse (py_slice data 32 48) = Inr f2
           \<and> subframes (Some data # reads) = f1 # f2 # subframes reads"
proof -
  have l1: "16 \<le> length (py_slice data 16 32)" and l2: "16 \<le> length (py_slice data 32 48)"
    using assms by (simp_all add: py_slice_def)
  obtain f1 where f1: "sensor_parse (py_slice data 16 32) = Inr f1"
    using sensor_parse_ok [OF l1] by blast
  obtain f2 where f2: "sensor_parse (py_slice data 32 48) = Inr f2"
    using sensor_parse_ok [OF l2] by blast
  show ?thesis using f1 f2 by simp
qed

text \<open>
  C1, as amended. Every raw gyro sample is given to the filter as its own angular rate:
  the rates of the \<open>ahrs.update_imu\<close> calls of the fusion loop are, call by call and in
  the order of the stream, the raw signed 16-bit counts of the decoded sub-frames, less
  the bias, times \<open>(1998 / 2 ^ 15) * (pi / 180)\<close> on every axis, with the sign of the
  third axis flipped. So the range mapped across the 16-bit span is 1998 degrees per
  second, not 250. Without \<open>--comp\<close> the bias is zero. Every report of 48 bytes or more
  contributes its two sub-frames, each with three counts in the signed 16-bit range.
\<close>

theorem gyro_scale:
  "map fst (fst (fusion_loop [b0, b1, b2] t2 reads))
     = map (\<lambda>fr. [(real_of_int (gyro fr ! 0) - b0) * ((1998 / 2 ^ 15) * (pi / 180)),
                  (real_of_int (gyro fr ! 1) - b1) * ((1998 / 2 ^ 15) * (pi / 180)),
                  (real_of_int (gyro fr ! 2) - b2) * - ((1998 / 2 ^ 15) * (pi / 180))])
           (subframes reads)
   \<and> map fst (fst (main False (Some reads)))
     = map (\<lambda>fr. [real_of_int (gyro fr ! 0) * ((1998 / 2 ^ 15) * (pi / 180)),
                  real_of_int (gyro fr ! 1) * ((1998 / 2 ^ 15) * (pi / 180)),
                  real_of_int (gyro fr ! 2) * - ((1998 / 2 ^ 15) * (pi / 180))])
           (subframes reads)
   \<and> (\<forall>fr \<in> set (subframes reads).
         length (gyro fr) = 3 \<and> (\<forall>g \<in> set (gyro fr). - 32768 \<le> g \<and> g < 32768))
   \<and> (48 \<le> length data \<longrightarrow>
        (\<exists>f1 f2. sensor_parse (py_slice data 16 32) = Inr f1
           \<and> sensor_parse (py_slice data 32 48) = Inr f2
           \<and> subframes (Some data # reads) = f1 # f2 # subframes reads))"
proof -
  have r: "map (\<lambda>fr. map2 (*) (map2 (-) (map real_of_int (gyro fr)) [c0, c1, c2]) GYRO_FACTOR)
             (subframes reads)
         = map (\<lambda>fr. [(real_of_int (gyro fr ! 0) - c0) * ((1998 / 2 ^ 15) * (pi / 180)),
                  (real_of_int (gyro fr ! 1) - c1) * ((1998 / 2 ^ 15) * (pi / 180)),
                  (real_of_int (gyro fr ! 2) - c2) * - ((1998 / 2 ^ 15) * (pi / 180))])
             (subframes reads)" for c0 c1 c2
  proof (rule map_cong [OF refl])
    fix fr assume "fr \<in> set (subframes reads)"
    from subframes_gyro [OF this] obtain g0 g1 g2 where "gyro fr = [g0, g1, g2]"
      by blast
    from rate_components [OF this] show
      "map2 (*) (map2 (-) (map real_of_int (gyro fr)) [c0, c1, c2]) GYRO_FACTOR
         = [(real_of_int (gyro fr ! 0) - c0) * ((1998 / 2 ^ 15) * (pi / 180)),
            (real_of_int (gyro fr ! 1) - c1) * ((1998 / 2 ^ 15) * (pi / 180)),
            (real_of_int (gyro fr ! 2) - c2) * - ((1998 / 2 ^ 15) * (pi / 180))]" .
  qed
  have a: "map fst (fst (fusion_loop [b0, b1, b2] t2 reads))
     = map (\<lambda>fr. [(real_of_int (gyro fr ! 0) - b0) * ((1998 / 2 ^ 15) * (pi / 180)),
                  (real_of_int (gyro fr ! 1) - b1) * ((1998 / 2 ^ 15) * (pi / 180)),
                  (real_of_int (gyro fr ! 2) - b2) * - ((1998 / 2 ^ 15) * (pi / 180))])
           (subframes reads)"
    unfolding fusion_loop_rates by (rule r)
  have "map fst (fst (main False (Some reads)))
          = map fst (fst (fusion_loop [0, 0, 0] time2_init reads))"
    by (simp add: main_def gcomp_init_def)
  also have "\<dots> = map (\<lambda>fr. [(real_of_int (gyro fr ! 0) - 0) * ((1998 / 2 ^ 15) * (pi / 180)),
                  (real_of_int (gyro fr ! 1) - 0) * ((1998 / 2 ^ 15) * (pi / 180)),
                  (real_of_int (gyro fr ! 2) - 0) * - ((1998 / 2 ^ 15) * (pi / 180))])
           (subframes reads)"
    unfolding fusion_loop_rates by (rule r)
  finally have m: "map fst (fst (main False (Some reads)))
     = map (\<lambda>fr. [real_of_int (gyro fr ! 0) * ((1998 / 2 ^ 15) * (pi / 180)),
                  real_of_int (gyro fr ! 1) * ((1998 / 2 ^ 15) * (pi / 180)),
                  real_of_int (gyro fr ! 2) * - ((1998 / 2 ^ 15) * (pi / 180))])
           (subframes reads)"
    by simp
  have g: "\<forall>fr \<in> set (subframes reads).
         length (gyro fr) = 3 \<and> (\<forall>g \<in> set (gyro fr). - 32768 \<le> g \<and> g < 32768)"
  proof
    fix fr assume "fr \<in> set (subframes reads)"
    from subframes_gyro [OF this]
    show "length (gyro fr) = 3 \<and> (\<forall>g \<in> set (gyro fr). - 32768 \<le> g \<and> g < 32768)"
      by auto
  qed
  have f: "48 \<le> length data \<longrightarrow>
        (\<exists>f1 f2. sensor_parse (py_slice data 16 32) = Inr f1
           \<and> sensor_parse (py_slice data 32 48) = Inr f2
           \<and> subframes (Some data # reads) = f1 # f2 # subframes reads)"
    using subframes_full by blast
  from a m g f show ?thesis by blast
qed

theorem gyro_scale_witness:
  "subframes
     [Some (replicate 16 0 @ [0, 0, 0, 0, 1, 0, 0xFE, 0xFF, 3, 0, 0, 0, 0, 0, 0, 0]
              @ [0xF4, 1, 0, 0, 7, 0, 0, 0, 0, 0, 0, 0, 0, 0, 0, 0] @ replicate 16 0)]
     = [\<lparr>timestamp = 0, gyro = [1, - 2, 3], acc = [0, 0, 0]\<rparr>,
        \<lparr>timestamp = 500, gyro = [7, 0, 0], acc = [0, 0, 0]\<rparr>]
   \<and> map fst (fst (fusion_loop [1 / 2, 0, 0] 0
        [Some (replicate 16 0 @ [0, 0, 0, 0, 1, 0, 0xFE, 0xFF, 3, 0, 0, 0, 0, 0, 0, 0]
                 @ [0xF4, 1, 0, 0, 7, 0, 0, 0, 0, 0, 0, 0, 0, 0, 0, 0] @ replicate 16 0)]))
     = [[(1 - 1 / 2) * ((1998 / 2 ^ 15) * (pi / 180)),
         (- 2 - 0) * ((1998 / 2 ^ 15) * (pi / 180)),
         (3 - 0) * - ((1998 / 2 ^ 15) * (pi / 180))],
        [(7 - 1 / 2) * ((1998 / 2 ^ 15) * (pi / 180)),
         (0 - 0) * ((1998 / 2 ^ 15) * (pi / 180)),
         (0 - 0) * - ((1998 / 2 ^ 15) * (pi / 180))]]"
proof -
  define R :: "read list" where
    "R = [Some (replicate 16 0 @ [0, 0, 0, 0, 1, 0, 0xFE, 0xFF, 3, 0, 0, 0, 0, 0, 0, 0]
              @ [0xF4, 1, 0, 0, 7, 0, 0, 0, 0, 0, 0, 0, 0, 0, 0, 0] @ replicate 16 0)]"
  have s: "subframes R
     = [\<lparr>timestamp = 0, gyro = [1, - 2, 3], acc = [0, 0, 0]\<rparr>,
        \<lparr>timestamp = 500, gyro = [7, 0, 0], acc = [0, 0, 0]\<rparr>]"
    unfolding R_def
    by (simp add: py_slice_def sensor_parse_def Int32ul_parse_def Int16sl_parse_def
        Array_parse_3 Let_def)
  from gyro_scale [of "1 / 2" 0 0 0 R] have
    "map fst (fst (fusion_loop [1 / 2, 0, 0] 0 R))
     = map (\<lambda>fr. [(real_of_int (gyro fr ! 0) - 1 / 2) * ((1998 / 2 ^ 15) * (pi / 180)),
                  (real_of_int (gyro fr ! 1) - 0) * ((1998 / 2 ^ 15) * (pi / 180)),
                  (real_of_int (gyro fr ! 2) - 0) * - ((1998 / 2 ^ 15) * (pi / 180))])
           (subframes R)"
    by blast
  then show ?thesis
    using s unfolding R_def by simp
qed

text \<open>
  C1 fails as stated: one raw count on the first axis, with no bias, is given to the
  filter as \<open>(1998 / 2 ^ 15) * (pi / 180)\<close> radians per second, which is not
  \<open>(250 / 2 ^ 15) * (pi / 180)\<close>.
\<close>

theorem gyro_scale_counterexample:
  "fst (update_imu_args (map real_of_int gcomp_init)
          \<lparr>timestamp = 0, gyro = [1, 0, 0], acc = [0, 0, 0]\<rparr> (5 / 10000))
     = [(1998 / 2 ^ 15) * (pi / 180), 0, 0]
   \<and> fst (update_imu_args (map real_of_int gcomp_init)
          \<lparr>timestamp = 0, gyro = [1, 0, 0], acc = [0, 0, 0]\<rparr> (5 / 10000))
     \<noteq> [(250 / 2 ^ 15) * (pi / 180), 0, 0]
   \<and> GYRO_FACTOR \<noteq> map (\<lambda>s. s * ((250 / 2 ^ 15) * (pi / 180))) [1, 1, -1]"
  by (simp add: update_imu_args_def GYRO_FACTOR_def gcomp_init_def)

section \<open>The messages for VRidge\<close>

lemma Int32ul_build_consts:
  "Int32ul_build 2 = Inr [2, 0, 0, 0]" "Int32ul_build 3 = Inr [3, 0, 0, 0]"
  "Int32ul_build 4 = Inr [4, 0, 0, 0]" "Int32ul_build 5 = Inr [5, 0, 0, 0]"
  "Int32ul_build 24 = Inr [24, 0, 0, 0]"
  by (simp_all add: Int32ul_build_def)

lemma length_le32: "length (le32 w) = 4"
  by (simp add: le32_def)

lemma build_seq_floats:
  assumes "map f32 vals = map Some ws"
  shows "build_seq (map (Float32l_build f32) vals) = Inr (concat (map le32 ws))"
  using assms
proof (induction vals arbitrary: ws)
  case Nil
  then show ?case by simp
next
  case (Cons v vals)
  then obtain w ws' where ws: "ws = w # ws'" and v: "f32 v = Some w"
    and rest: "map f32 vals = map Some ws'"
    by (cases ws) auto
  show ?case
    using Cons.IH [OF rest] v by (simp add: ws Float32l_build_def)
qed

lemma padded_floats:
  assumes "map f32 vals = map Some ws" "length vals = n" "4 * n \<le> 64"
  shows "Padded_build 64 (Array_build n (Float32l_build f32) vals)
           = Inr (concat (map le32 ws) @ replicate (64 - 4 * n) 0)"
proof -
  have lw: "length ws = n"
    using assms(1,2) by (metis length_map)
  have "length (concat (map le32 ws)) = 4 * length ws"
    by (induction ws) (simp_all add: length_le32)
  then have len: "length (concat (map le32 ws)) = 4 * n"
    using lw by simp
  show ?thesis
    using build_seq_floats [OF assms(1)] assms(2,3) len
    by (simp add: Padded_build_def Array_build_def)
qed

text \<open>
  C2, as amended. When every value can be packed as binary32, each of the three structs
  builds a message of 76 bytes: a header of three little-endian 32-bit integers, the
  version 2, the type 3, 4 or 5 and the declared length 24, followed by a data area of 64
  bytes. The data area holds the little-endian binary32 values, (pitch, yaw, roll,
  position) with \<open>--angle\<close>, (qY, qZ, qX, qW, position) for the quaternion
  \<open>(w, x, y, z)\<close> otherwise, and the position alone for \<open>justposition\<close>; every byte
  of the data area after the packed values is zero.
\<close>

theorem frame_layout:
  assumes "map f32 [yaw, pitch, roll, qw, qx, qy, qz, px, py, pz]
             = map Some [ya, pa, ra, w, x, y, z, a, b, c]"
  shows "build_output f32 True (yaw, pitch, roll) (qw, qx, qy, qz) [px, py, pz]
           = Inr ([2, 0, 0, 0, 3, 0, 0, 0, 24, 0, 0, 0]
                  @ le32 pa @ le32 ya @ le32 ra @ le32 a @ le32 b @ le32 c
                  @ replicate 40 0)
         \<and> build_output f32 False (yaw, pitch, roll) (qw, qx, qy, qz) [px, py, pz]
           = Inr ([2, 0, 0, 0, 4, 0, 0, 0, 24, 0, 0, 0]
                  @ le32 y @ le32 z @ le32 x @ le32 w @ le32 a @ le32 b @ le32 c
                  @ replicate 36 0)
         \<and> justposition_build f32 [px, py, pz]
           = Inr ([2, 0, 0, 0, 5, 0, 0, 0, 24, 0, 0, 0]
                  @ le32 a @ le32 b @ le32 c @ replicate 52 0)
         \<and> (\<forall>angle frame.
               build_output f32 angle (yaw, pitch, roll) (qw, qx, qy, qz) [px, py, pz]
                 = Inr frame \<or> justposition_build f32 [px, py, pz] = Inr frame
               \<longrightarrow> length frame = 76)"
proof -
  have A: "map f32 [pitch, yaw, roll, px, py, pz] = map Some [pa, ya, ra, a, b, c]"
    and Q: "map f32 [qy, qz, qx, qw, px, py, pz] = map Some [y, z, x, w, a, b, c]"
    and P: "map f32 [px, py, pz] = map Some [a, b, c]"
    using assms by simp_all
  have a: "build_output f32 True (yaw, pitch, roll) (qw, qx, qy, qz) [px, py, pz]
           = Inr ([2, 0, 0, 0, 3, 0, 0, 0, 24, 0, 0, 0]
                  @ le32 pa @ le32 ya @ le32 ra @ le32 a @ le32 b @ le32 c
                  @ replicate 40 0)"
    using padded_floats [OF A, of 6]
    by (simp add: build_output_def anglesposition_build_def Int32ul_build_consts)
  have q: "build_output f32 False (yaw, pitch, roll) (qw, qx, qy, qz) [px, py, pz]
           = Inr ([2, 0, 0, 0, 4, 0, 0, 0, 24, 0, 0, 0]
                  @ le32 y @ le32 z @ le32 x @ le32 w @ le32 a @ le32 b @ le32 c
                  @ replicate 36 0)"
    using padded_floats [OF Q, of 7]
    by (simp add: build_output_def quaternionposition_build_def Int32ul_build_consts)
  have p: "justposition_build f32 [px, py, pz]
           = Inr ([2, 0, 0, 0, 5, 0, 0, 0, 24, 0, 0, 0]
                  @ le32 a @ le32 b @ le32 c @ replicate 52 0)"
    using padded_floats [OF P, of 3]
    by (simp add: justposition_build_def Int32ul_build_consts)
  have l: "length frame = 76"
    if "build_output f32 angle (yaw, pitch, roll) (qw, qx, qy, qz) [px, py, pz] = Inr frame
        \<or> justposition_build f32 [px, py, pz] = Inr frame" for angle frame
  proof (cases angle)
    case True
    with that a p show ?thesis by (auto simp: length_le32)
  next
    case False
    with that q p show ?thesis by (auto simp: length_le32)
  qed
  from a q p l show ?thesis by blast
qed

theorem frame_layout_witness:
  "map (\<lambda>v::real. if v = 0 then Some 0 else if v = 1 then Some 0x3F800000 else None)
       [0, 0, 0, 1, 0, 0, 0, 0, 0, 0]
     = map Some [0, 0, 0, 0x3F800000 :: 32 word, 0, 0, 0, 0, 0, 0]
   \<and> (\<exists>frame. build_output
          (\<lambda>v. if v = 0 then Some 0 else if v = 1 then Some 0x3F800000 else None)
          False (0, 0, 0) (1, 0, 0, 0) [0, 0, 0] = Inr frame
        \<and> length frame = 76
        \<and> take 12 frame = [2, 0, 0, 0, 4, 0, 0, 0, 24, 0, 0, 0])"
proof -
  have h: "map (\<lambda>v::real. if v = 0 then Some 0 else if v = 1 then Some 0x3F800000 else None)
       [0, 0, 0, 1, 0, 0, 0, 0, 0, 0]
     = map Some [0, 0, 0, 0x3F800000 :: 32 word, 0, 0, 0, 0, 0, 0]"
    by simp
  show ?thesis
    using h frame_layout [OF h] by (simp add: length_le32)
qed

text \<open>
  C2 fails as stated: the message of the identity quaternion at the script's position
  has 76 bytes, not 64, in both modes; and with a position whose third coordinate is 1
  the quaternion message has a non-zero byte at offset 27 of the data area, beyond the
  declared length 24.
\<close>

theorem frame_layout_counterexample:
  "(\<exists>frame. build_output (\<lambda>v. if v = 0 then Some 0 else if v = 1 then Some 0x3F800000 else None)
               False (0, 0, 0) (1, 0, 0, 0) position = Inr frame
            \<and> length frame = 76)
   \<and> (\<exists>frame. build_output (\<lambda>v. if v = 0 then Some 0 else if v = 1 then Some 0x3F800000 else None)
               True (0, 0, 0) (1, 0, 0, 0) position = Inr frame
            \<and> length frame = 76)
   \<and> (\<exists>frame. build_output (\<lambda>v. if v = 0 then Some 0 else if v = 1 then Some 0x3F800000 else None)
               False (0, 0, 0) (1, 0, 0, 0) [0, 0, 1] = Inr frame
            \<and> frame ! (12 + 27) = 0x3F \<and> frame ! (12 + 27) \<noteq> 0)"
  by (simp add: build_output_def quaternionposition_build_def anglesposition_build_def
      Int32ul_build_consts Padded_build_def Array_build_def Float32l_build_def le32_def
      position_def)

section \<open>The two loops\<close>

lemma fusion_loop_skip: "fusion_loop gc t2 (replicate n None @ reads) = fusion_loop gc t2 reads"
  by (induction n) simp_all

lemma calibration_skip: "calibration st (replicate n None @ reads) = calibration st reads"
  by (induction n) simp_all

lemma fusion_loop_stage:
  "snd (fusion_loop gc t2 reads) = Inr stage \<Longrightarrow> \<exists>t'. stage = Running gc t'"
proof (induction gc t2 reads rule: fusion_loop.induct)
  case (1 gc t2)
  then show ?case by auto
next
  case (2 gc t2 reads)
  then show ?case by simp
next
  case (3 gc t2 data reads)
  then show ?case
    by (auto split: prod.splits sum.splits)
qed

lemma calibration_exit:
  assumes "calibration st reads = Inr (Calibrated b t rest)"
  shows "\<exists>pre data st0 st1.
           reads = pre @ Some data # rest
           \<and> calibration st pre = Inr (Uncalibrated st0)
           \<and> calib_body st0 data = Inr st1
           \<and> 5 < comptime st1 \<and> b = gyro_bias st1 \<and> t = time2 st1"
  using assms
proof (induction st reads rule: calibration.induct)
  case (1 st)
  then show ?case by simp
next
  case (2 st reads)
  then obtain pre data st0 st1 where
    "reads = pre @ Some data # rest" "calibration st pre = Inr (Uncalibrated st0)"
    "calib_body st0 data = Inr st1" "5 < comptime st1" "b = gyro_bias st1" "t = time2 st1"
    by auto
  then have "None # reads = (None # pre) @ Some data # rest
      \<and> calibration st (None # pre) = Inr (Uncalibrated st0)
      \<and> calib_body st0 data = Inr st1 \<and> 5 < comptime st1 \<and> b = gyro_bias st1 \<and> t = time2 st1"
    by simp
  then show ?case by blast
next
  case (3 st data reads)
  then obtain st' where b: "calib_body st data = Inr st'"
    by (auto split: sum.splits)
  show ?case
  proof (cases "5 < comptime st'")
    case True
    with 3(2) b have "Some data # reads = [] @ Some data # rest
      \<and> calibration st [] = Inr (Uncalibrated st)
      \<and> calib_body st data = Inr st' \<and> 5 < comptime st' \<and> b = gyro_bias st' \<and> t = time2 st'"
      by simp
    then show ?thesis by blast
  next
    case False
    with 3(2) b have "calibration st' reads = Inr (Calibrated b t rest)"
      by simp
    from 3(1) [OF b _ this] False obtain pre d st0 st1 where
      "reads = pre @ Some d # rest" "calibration st' pre = Inr (Uncalibrated st0)"
      "calib_body st0 d = Inr st1" "5 < comptime st1" "b = gyro_bias st1" "t = time2 st1"
      by auto
    with b False have "Some data # reads = (Some data # pre) @ Some d # rest
      \<and> calibration st (Some data # pre) = Inr (Uncalibrated st0)
      \<and> calib_body st0 d = Inr st1 \<and> 5 < comptime st1 \<and> b = gyro_bias st1 \<and> t = time2 st1"
      by simp
    then show ?thesis by blast
  qed
qed

lemma calib_body_sums:
  assumes "calib_body st data = Inr st'"
  shows "\<exists>f1 f2. sensor_parse (py_slice data 16 32) = Inr f1
           \<and> sensor_parse (py_slice data 32 48) = Inr f2
           \<and> time2 st' = timestamp f2
           \<and> gcomp st' = map2 (+) (map2 (+) (gcomp st) (gyro f1)) (gyro f2)
           \<and> comptime st' = comptime st + first_delta (time2 st) (timestamp f1)
                               + second_delta (timestamp f1) (timestamp f2)"
  using assms by (auto simp: calib_body_def Let_def split: sum.splits)

text \<open>
  C9, as amended. A read that yields no block (\<open>None\<close>) is skipped in both loops and
  changes nothing: any number of them in front of the reads leaves the result as it is.
  A short block is not skipped. A block of fewer than 48 bytes makes the decoder raise
  \<open>StreamError\<close> out of the loop, in the fusion loop after one filter update when the
  first sub-frame could still be decoded (32 bytes or more); a block of 48 bytes or more
  is decoded and used like a full one.
\<close>

theorem absent_read_skipped_short_read_raises:
  "fusion_loop gc t2 (replicate n None @ reads) = fusion_loop gc t2 reads
   \<and> calibration st (replicate n None @ reads) = calibration st reads
   \<and> (length data < 48 \<longrightarrow>
        snd (fusion_loop gc t2 (Some data # reads)) = Inl StreamError
        \<and> length (fst (fusion_loop gc t2 (Some data # reads))) = (if length data < 32 then 0 else 1)
        \<and> calibration st (Some data # reads) = Inl StreamError)
   \<and> (48 \<le> length data \<longrightarrow>
        (\<exists>call1 call2 t. fusion_body gc t2 data = ([call1, call2], Inr t))
        \<and> (\<exists>st'. calib_body st data = Inr st'))"
proof -
  have s: "snd (fusion_loop gc t2 (Some data # reads)) = Inl StreamError
        \<and> length (fst (fusion_loop gc t2 (Some data # reads))) = (if length data < 32 then 0 else 1)
        \<and> calibration st (Some data # reads) = Inl StreamError"
    if l: "length data < 48"
  proof (cases "length data < 32")
    case True
    then show ?thesis
      using fusion_body_short1 [OF True, of gc t2] calib_body_short [OF l, of st] by simp
  next
    case False
    then have "32 \<le> length data" by simp
    from fusion_body_short2 [OF this l, of gc t2] obtain f1 where
      "fusion_body gc t2 data
         = ([update_imu_args gc f1 (first_delta t2 (timestamp f1))], Inl StreamError)"
      by blast
    then show ?thesis
      using False calib_body_short [OF l, of st] by simp
  qed
  have b: "(\<exists>call1 call2 t. fusion_body gc t2 data = ([call1, call2], Inr t))
        \<and> (\<exists>st'. calib_body st data = Inr st')"
    if l: "48 \<le> length data"
    using fusion_body_ok [OF l, of gc t2] calib_body_ok [OF l, of st] by blast
  from s b show ?thesis
    using fusion_loop_skip [of gc t2 n reads] calibration_skip [of st n reads] by blast
qed

theorem absent_read_skipped_short_read_raises_witness:
  "length (replicate 20 (0 :: byte)) < 48
   \<and> fusion_loop [0, 0, 0] 0 [Some (replicate 20 0), Some (replicate 64 0)]
       = ([], Inl StreamError)
   \<and> 48 \<le> length (replicate 64 (0 :: byte))
   \<and> (\<exists>call1 call2 t. fusion_body [0, 0, 0] 0 (replicate 64 0) = ([call1, call2], Inr t))"
  using absent_read_skipped_short_read_raises
          [of "[0, 0, 0]" 0 0 "[Some (replicate 64 0)]" st "replicate 20 0"]
        absent_read_skipped_short_read_raises
          [of "[0, 0, 0]" 0 0 "[]" st "replicate 64 0"]
  by (auto simp: prod_eq_iff)

text \<open>
  C9 fails as stated for short blocks: a block of 20 bytes ends either loop, and the
  whole script, with \<open>StreamError\<close>, and the next read is never taken; a block of
  50 bytes is not discarded but drives two filter updates.
\<close>

theorem short_read_counterexample:
  "fusion_loop [0, 0, 0] 0 [Some (replicate 20 0), Some (replicate 64 0)]
     = ([], Inl StreamError)
   \<and> calibration \<lparr>time2 = time2_init, gcomp = gcomp_init, comptime = comptime_init\<rparr>
        [Some (replicate 20 0), Some (replicate 64 0)] = Inl StreamError
   \<and> main True (Some [Some (replicate 20 0), Some (replicate 64 0)]) = ([], Inl StreamError)
   \<and> length (fst (fusion_loop [0, 0, 0] 0 [Some (replicate 50 0)])) = 2"
proof -
  have a: "fusion_body [0, 0, 0] 0 (replicate 20 0) = ([], Inl StreamError)"
    by (rule fusion_body_short1) simp
  have b: "calib_body st (replicate 20 0) = Inl StreamError" for st
    by (rule calib_body_short) simp
  have l: "48 \<le> length (replicate 50 (0 :: byte))"
    by simp
  from fusion_body_ok [OF l, of "[0, 0, 0]" 0]
  obtain c1 c2 t where c: "fusion_body [0, 0, 0] 0 (replicate 50 0) = ([c1, c2], Inr t)"
    by blast
  show ?thesis
    using a b c by (simp add: main_def)
qed

lemma fusion_loop_first_call:
  assumes "sensor_parse (py_slice d 16 32) = Inr f1"
  shows "\<exists>cs. fst (fusion_loop gc t (Some d # later))
           = update_imu_args gc f1 (first_delta t (timestamp f1)) # cs"
proof (cases "sensor_parse (py_slice d 32 48)")
  case (Inl e)
  then show ?thesis using assms by (simp add: fusion_body_def Let_def)
next
  case (Inr f2)
  then show ?thesis
    using assms by (simp add: fusion_body_def Let_def split: prod.splits)
qed

text \<open>
  C8, as amended. When the calibration loop is left, the fusion loop starts with the
  \<open>time2\<close> that the calibration loop retained last, the timestamp of the second
  sub-frame of its last report: nothing sets it back to 0. The first delta after
  calibration is timed against that value, and is the true elapsed time whenever the
  value is not 0 and the counter has not wrapped.
\<close>

theorem time2_carried_over:
  assumes "calibration \<lparr>time2 = time2_init, gcomp = gcomp_init, comptime = comptime_init\<rparr>
             reads = Inr (Calibrated bias t rest)"
  shows "main True (Some reads) = fusion_loop bias t rest
         \<and> (\<exists>pre data st0 st1 f2.
               reads = pre @ Some data # rest
               \<and> calibration \<lparr>time2 = time2_init, gcomp = gcomp_init,
                                comptime = comptime_init\<rparr> pre = Inr (Uncalibrated st0)
               \<and> calib_body st0 data = Inr st1
               \<and> sensor_parse (py_slice data 32 48) = Inr f2
               \<and> t = timestamp f2)
         \<and> (\<forall>d later f1.
               rest = Some d # later \<and> sensor_parse (py_slice d 16 32) = Inr f1 \<longrightarrow>
               (\<exists>cs. fst (main True (Some reads))
                        = update_imu_args bias f1 (first_delta t (timestamp f1)) # cs)
               \<and> (0 < t \<and> t \<le> timestamp f1 \<longrightarrow>
                    first_delta t (timestamp f1) = real_of_int (timestamp f1 - t) / 1000000))"
proof -
  have m: "main True (Some reads) = fusion_loop bias t rest"
    using assms by (simp add: main_def)
  from calibration_exit [OF assms] obtain pre data st0 st1 where
    e: "reads = pre @ Some data # rest"
       "calibration \<lparr>time2 = time2_init, gcomp = gcomp_init, comptime = comptime_init\<rparr> pre
          = Inr (Uncalibrated st0)"
       "calib_body st0 data = Inr st1" "t = time2 st1"
    by blast
  from calib_body_sums [OF e(3)] obtain f2 where
    f2: "sensor_parse (py_slice data 32 48) = Inr f2" "time2 st1 = timestamp f2"
    by blast
  have c: "(\<exists>cs. fst (main True (Some reads))
                        = update_imu_args bias f1 (first_delta t (timestamp f1)) # cs)
               \<and> (0 < t \<and> t \<le> timestamp f1 \<longrightarrow>
                    first_delta t (timestamp f1) = real_of_int (timestamp f1 - t) / 1000000)"
    if "rest = Some d # later \<and> sensor_parse (py_slice d 16 32) = Inr f1" for d later f1
  proof -
    from that have r: "rest = Some d # later" and p: "sensor_parse (py_slice d 16 32) = Inr f1"
      by simp_all
    have "\<exists>cs. fst (main True (Some reads))
                        = update_imu_args bias f1 (first_delta t (timestamp f1)) # cs"
      unfolding m r using fusion_loop_first_call [OF p] by blast
    moreover have "0 < t \<and> t \<le> timestamp f1 \<longrightarrow>
                    first_delta t (timestamp f1) = real_of_int (timestamp f1 - t) / 1000000"
      by (simp add: first_delta_def)
    ultimately show ?thesis by blast
  qed
  from m e f2 c show ?thesis by blast
qed

theorem time2_carried_over_witness:
  "calibration \<lparr>time2 = time2_init, gcomp = gcomp_init, comptime = comptime_init\<rparr>
        [Some (replicate 16 0 @ [0, 0, 0, 0, 3, 0, 0, 0, 0, 0, 0, 0, 0, 0, 0, 0]
                 @ [0x80, 0x8D, 0x5B, 0, 1, 0, 0, 0, 0, 0, 0, 0, 0, 0, 0, 0] @ replicate 16 0),
         Some (replicate 64 0)]
     = Inr (Calibrated
              (gyro_bias \<lparr>time2 = 6000000, gcomp = [4, 0, 0], comptime = 12001 / 2000\<rparr>)
              6000000 [Some (replicate 64 0)])
   \<and> main True (Some
        [Some (replicate 16 0 @ [0, 0, 0, 0, 3, 0, 0, 0, 0, 0, 0, 0, 0, 0, 0, 0]
                 @ [0x80, 0x8D, 0x5B, 0, 1, 0, 0, 0, 0, 0, 0, 0, 0, 0, 0, 0] @ replicate 16 0),
         Some (replicate 64 0)])
     = fusion_loop
         (gyro_bias \<lparr>time2 = 6000000, gcomp = [4, 0, 0], comptime = 12001 / 2000\<rparr>)
         6000000 [Some (replicate 64 0)]"
proof -
  have e: "calibration \<lparr>time2 = time2_init, gcomp = gcomp_init, comptime = comptime_init\<rparr>
        [Some (replicate 16 0 @ [0, 0, 0, 0, 3, 0, 0, 0, 0, 0, 0, 0, 0, 0, 0, 0]
                 @ [0x80, 0x8D, 0x5B, 0, 1, 0, 0, 0, 0, 0, 0, 0, 0, 0, 0, 0] @ replicate 16 0),
         Some (replicate 64 0)]
     = Inr (Calibrated
              (gyro_bias \<lparr>time2 = 6000000, gcomp = [4, 0, 0], comptime = 12001 / 2000\<rparr>)
              6000000 [Some (replicate 64 0)])"
    by (simp add: py_slice_def sensor_parse_def Int32ul_parse_def Int16sl_parse_def
        Array_parse_3 calib_body_def first_delta_def second_delta_def time2_init_def
        gcomp_init_def comptime_init_def Let_def)
  from time2_carried_over [OF e] e show ?thesis by blast
qed

text \<open>
  C8 fails as stated: a calibration report reaching 6.0005 seconds with 6000000 as its
  second timestamp leaves \<open>time2 = 6000000\<close>, and the next report, stamped 6001000
  and 6001500, gets the deltas 1000 and 500 microseconds: the first one is the true
  elapsed time, not the 500-microsecond default.
\<close>

theorem time2_reset_counterexample:
  "calibration \<lparr>time2 = time2_init, gcomp = gcomp_init, comptime = comptime_init\<rparr>
        [Some (replicate 16 0 @ [0, 0, 0, 0, 3, 0, 0, 0, 0, 0, 0, 0, 0, 0, 0, 0]
                 @ [0x80, 0x8D, 0x5B, 0, 1, 0, 0, 0, 0, 0, 0, 0, 0, 0, 0, 0] @ replicate 16 0),
         Some (replicate 16 0 @ [0x68, 0x91, 0x5B, 0, 0, 0, 0, 0, 0, 0, 0, 0, 0, 0, 0, 0]
                 @ [0x5C, 0x93, 0x5B, 0, 0, 0, 0, 0, 0, 0, 0, 0, 0, 0, 0, 0] @ replicate 16 0)]
     = Inr (Calibrated
              (gyro_bias \<lparr>time2 = 6000000, gcomp = [4, 0, 0], comptime = 12001 / 2000\<rparr>)
              6000000
              [Some (replicate 16 0 @ [0x68, 0x91, 0x5B, 0, 0, 0, 0, 0, 0, 0, 0, 0, 0, 0, 0, 0]
                 @ [0x5C, 0x93, 0x5B, 0, 0, 0, 0, 0, 0, 0, 0, 0, 0, 0, 0, 0] @ replicate 16 0)])
   \<and> map (snd \<circ> snd) (fst (main True (Some
        [Some (replicate 16 0 @ [0, 0, 0, 0, 3, 0, 0, 0, 0, 0, 0, 0, 0, 0, 0, 0]
                 @ [0x80, 0x8D, 0x5B, 0, 1, 0, 0, 0, 0, 0, 0, 0, 0, 0, 0, 0] @ replicate 16 0),
         Some (replicate 16 0 @ [0x68, 0x91, 0x5B, 0, 0, 0, 0, 0, 0, 0, 0, 0, 0, 0, 0, 0]
                 @ [0x5C, 0x93, 0x5B, 0, 0, 0, 0, 0, 0, 0, 0, 0, 0, 0, 0, 0] @ replicate 16 0)])))
     = [1000 / 1000000, 500 / 1000000]
   \<and> (1000 / 1000000 :: real) \<noteq> 500 / 1000000"
  by (simp add: py_slice_def sensor_parse_def Int32ul_parse_def Int16sl_parse_def Array_parse_3
      calib_body_def first_delta_def second_delta_def time2_init_def gcomp_init_def
      comptime_init_def Let_def main_def fusion_body_def update_imu_args_def)

lemma calib_body_fl_iff:
  "calib_body_fl fl st data = Inr st' \<longleftrightarrow>
     (\<exists>f1 f2. sensor_parse (py_slice data 16 32) = Inr f1
        \<and> sensor_parse (py_slice data 32 48) = Inr f2
        \<and> st' = \<lparr>time2 = timestamp f2,
                  gcomp = map2 (+) (map2 (+) (gcomp st) (gyro f1)) (gyro f2),
                  comptime = fl (fl (comptime st + fl (first_delta (time2 st) (timestamp f1)))
                                   + fl (second_delta (timestamp f1) (timestamp f2)))\<rparr>)"
  by (auto simp: calib_body_fl_def Let_def split: sum.splits)

lemma calib_body_fl_length:
  "(\<exists>st'. calib_body_fl fl st data = Inr st') \<longleftrightarrow> 48 \<le> length data"
proof
  assume "\<exists>st'. calib_body_fl fl st data = Inr st'"
  then obtain f1 f2 where f: "sensor_parse (py_slice data 16 32) = Inr f1"
    "sensor_parse (py_slice data 32 48) = Inr f2"
    unfolding calib_body_fl_iff by blast
  show "48 \<le> length data"
  proof (rule ccontr)
    assume "\<not> 48 \<le> length data"
    then have "length (py_slice data 32 48) < 16"
      by (simp add: py_slice_def)
    from sensor_parse_short [OF this] f(2) show False by simp
  qed
next
  assume l: "48 \<le> length data"
  have l1: "16 \<le> length (py_slice data 16 32)" and l2: "16 \<le> length (py_slice data 32 48)"
    using l by (simp_all add: py_slice_def)
  obtain f1 where f1: "sensor_parse (py_slice data 16 32) = Inr f1"
    using sensor_parse_ok [OF l1] by blast
  obtain f2 where f2: "sensor_parse (py_slice data 32 48) = Inr f2"
    using sensor_parse_ok [OF l2] by blast
  show "\<exists>st'. calib_body_fl fl st data = Inr st'"
    unfolding calib_body_fl_iff using f1 f2 by blast
qed

lemma calibration_fl_waiting:
  assumes "calibration_fl fl st reads = Inr (Uncalibrated st')"
  shows "(\<forall>d. Some d \<in> set reads \<longrightarrow> 48 \<le> length d)
         \<and> time2 st' = last_timestamp (time2 st) (decoded_reports reads)
         \<and> gcomp st' = summed_rate (gcomp st) (decoded_reports reads)
         \<and> comptime st' = accumulated_time fl (comptime st) (time2 st) (decoded_reports reads)
         \<and> (\<forall>k. 0 < k \<and> k \<le> length (decoded_reports reads) \<longrightarrow>
               accumulated_time fl (comptime st) (time2 st) (take k (decoded_reports reads)) \<le> 5)"
  using assms
proof (induction fl st reads rule: calibration_fl.induct)
  case (1 fl st)
  then show ?case by simp
next
  case (2 fl st reads)
  then show ?case by simp
next
  case (3 fl st data reads)
  from 3(2) obtain st1 where b: "calib_body_fl fl st data = Inr st1"
    by (auto split: sum.splits)
  from 3(2) b have n: "\<not> 5 < comptime st1"
    and c: "calibration_fl fl st1 reads = Inr (Uncalibrated st')"
    by (auto split: if_splits)
  from b obtain f1 f2 where f1: "sensor_parse (py_slice data 16 32) = Inr f1"
    and f2: "sensor_parse (py_slice data 32 48) = Inr f2"
    and st1: "st1 = \<lparr>time2 = timestamp f2,
                  gcomp = map2 (+) (map2 (+) (gcomp st) (gyro f1)) (gyro f2),
                  comptime = fl (fl (comptime st + fl (first_delta (time2 st) (timestamp f1)))
                                   + fl (second_delta (timestamp f1) (timestamp f2)))\<rparr>"
    unfolding calib_body_fl_iff by blast
  have len: "48 \<le> length data"
    using b calib_body_fl_length by blast
  note ih = "3.IH" [OF b n c]
  have d: "decoded_reports (Some data # reads) = (f1, f2) # decoded_reports reads"
    using f1 f2 by simp
  have k: "accumulated_time fl (comptime st) (time2 st)
             (take k (decoded_reports (Some data # reads))) \<le> 5"
    if "0 < k \<and> k \<le> length (decoded_reports (Some data # reads))" for k
  proof (cases k)
    case 0
    with that show ?thesis by simp
  next
    case (Suc j)
    show ?thesis
    proof (cases j)
      case 0
      with Suc n st1 show ?thesis unfolding d by simp
    next
      case (Suc i)
      with \<open>k = Suc j\<close> that have "0 < j \<and> j \<le> length (decoded_reports reads)"
        unfolding d by simp
      with ih have "accumulated_time fl (comptime st1) (time2 st1)
                      (take j (decoded_reports reads)) \<le> 5"
        by blast
      then show ?thesis
        using \<open>k = Suc j\<close> st1 unfolding d by simp
    qed
  qed
  from ih len k show ?case
    unfolding d by (simp add: st1)
qed

lemma calibration_fl_wait:
  assumes "\<forall>d. Some d \<in> set reads \<longrightarrow> 48 \<le> length d"
    and "\<forall>k. 0 < k \<and> k \<le> length (decoded_reports reads) \<longrightarrow>
               accumulated_time fl c t (take k (decoded_reports reads)) \<le> 5"
  shows "calibration_fl fl \<lparr>time2 = t, gcomp = g, comptime = c\<rparr> reads
           = Inr (Uncalibrated
                   \<lparr>time2 = last_timestamp t (decoded_reports reads),
                    gcomp = summed_rate g (decoded_reports reads),
                    comptime = accumulated_time fl c t (decoded_reports reads)\<rparr>)"
  using assms
proof (induction reads arbitrary: t g c)
  case Nil
  show ?case by simp
next
  case (Cons r reads)
  show ?case
  proof (cases r)
    case None
    with Cons show ?thesis by simp
  next
    case (Some data)
    with Cons.prems(1) have len: "48 \<le> length data" by simp
    then obtain st1 where b: "calib_body_fl fl \<lparr>time2 = t, gcomp = g, comptime = c\<rparr> data = Inr st1"
      using calib_body_fl_length by blast
    then obtain f1 f2 where f1: "sensor_parse (py_slice data 16 32) = Inr f1"
      and f2: "sensor_parse (py_slice data 32 48) = Inr f2"
      and st1: "st1 = \<lparr>time2 = timestamp f2,
                  gcomp = map2 (+) (map2 (+) g (gyro f1)) (gyro f2),
                  comptime = fl (fl (c + fl (first_delta t (timestamp f1)))
                                   + fl (second_delta (timestamp f1) (timestamp f2)))\<rparr>"
      unfolding calib_body_fl_iff by auto
    have d: "decoded_reports (r # reads) = (f1, f2) # decoded_reports reads"
      using f1 f2 Some by simp
    from Cons.prems(2) [rule_format, of 1] have n: "\<not> 5 < comptime st1"
      unfolding d by (simp add: st1)
    have p1: "\<forall>d. Some d \<in> set reads \<longrightarrow> 48 \<le> length d"
      using Cons.prems(1) by simp
    have p2: "\<forall>k. 0 < k \<and> k \<le> length (decoded_reports reads) \<longrightarrow>
               accumulated_time fl (comptime st1) (time2 st1) (take k (decoded_reports reads)) \<le> 5"
    proof (intro allI impI)
      fix k assume "0 < k \<and> k \<le> length (decoded_reports reads)"
      with Cons.prems(2) [rule_format, of "Suc k"] show
        "accumulated_time fl (comptime st1) (time2 st1) (take k (decoded_reports reads)) \<le> 5"
        unfolding d by (simp add: st1)
    qed
    from Cons.IH [OF p1 p2]
    have "calibration_fl fl st1 reads
           = Inr (Uncalibrated
                   \<lparr>time2 = last_timestamp (time2 st1) (decoded_reports reads),
                    gcomp = summed_rate (gcomp st1) (decoded_reports reads),
                    comptime = accumulated_time fl (comptime st1) (time2 st1)
                                 (decoded_reports reads)\<rparr>)"
      by (simp add: st1)
    then show ?thesis
      using Some b n unfolding d by (simp add: st1)
  qed
qed

lemma calibration_fl_exit:
  assumes "calibration_fl fl st reads = Inr (Calibrated b t rest)"
  shows "\<exists>pre data st0 st1.
           reads = pre @ Some data # rest
           \<and> calibration_fl fl st pre = Inr (Uncalibrated st0)
           \<and> calib_body_fl fl st0 data = Inr st1
           \<and> 5 < comptime st1 \<and> b = gyro_bias_fl fl st1 \<and> t = time2 st1"
  using assms
proof (induction fl st reads rule: calibration_fl.induct)
  case (1 fl st)
  then show ?case by simp
next
  case (2 fl st reads)
  then obtain pre data st0 st1 where
    "reads = pre @ Some data # rest" "calibration_fl fl st pre = Inr (Uncalibrated st0)"
    "calib_body_fl fl st0 data = Inr st1" "5 < comptime st1" "b = gyro_bias_fl fl st1"
    "t = time2 st1"
    by auto
  then have "None # reads = (None # pre) @ Some data # rest
      \<and> calibration_fl fl st (None # pre) = Inr (Uncalibrated st0)
      \<and> calib_body_fl fl st0 data = Inr st1 \<and> 5 < comptime st1
      \<and> b = gyro_bias_fl fl st1 \<and> t = time2 st1"
    by simp
  then show ?case by blast
next
  case (3 fl st data reads)
  then obtain st' where b: "calib_body_fl fl st data = Inr st'"
    by (auto split: sum.splits)
  show ?case
  proof (cases "5 < comptime st'")
    case True
    with 3(2) b have "Some data # reads = [] @ Some data # rest
      \<and> calibration_fl fl st [] = Inr (Uncalibrated st)
      \<and> calib_body_fl fl st data = Inr st' \<and> 5 < comptime st'
      \<and> b = gyro_bias_fl fl st' \<and> t = time2 st'"
      by simp
    then show ?thesis by blast
  next
    case False
    with 3(2) b have "calibration_fl fl st' reads = Inr (Calibrated b t rest)"
      by simp
    from 3(1) [OF b False this] obtain pre d st0 st1 where
      "reads = pre @ Some d # rest" "calibration_fl fl st' pre = Inr (Uncalibrated st0)"
      "calib_body_fl fl st0 d = Inr st1" "5 < comptime st1" "b = gyro_bias_fl fl st1"
      "t = time2 st1"
      by auto
    with b False have "Some data # reads = (Some data # pre) @ Some d # rest
      \<and> calibration_fl fl st (Some data # pre) = Inr (Uncalibrated st0)
      \<and> calib_body_fl fl st0 d = Inr st1 \<and> 5 < comptime st1
      \<and> b = gyro_bias_fl fl st1 \<and> t = time2 st1"
      by simp
    then show ?thesis by blast
  qed
qed

lemma calibration_fl_enter:
  assumes "calibration_fl fl st pre = Inr (Uncalibrated st0)"
  shows "calibration_fl fl st (pre @ reads) = calibration_fl fl st0 reads"
  using assms
proof (induction fl st pre rule: calibration_fl.induct)
  case (1 fl st)
  then show ?case by simp
next
  case (2 fl st reads)
  then show ?case by simp
next
  case (3 fl st data pre)
  then show ?case
    by (auto split: sum.splits if_splits)
qed

lemma decoded_reports_snoc:
  assumes "\<forall>d. Some d \<in> set pre \<longrightarrow> 48 \<le> length d"
    and "sensor_parse (py_slice data 16 32) = Inr f1"
    and "sensor_parse (py_slice data 32 48) = Inr f2"
  shows "decoded_reports (pre @ [Some data]) = decoded_reports pre @ [(f1, f2)]"
  using assms(1)
proof (induction pre)
  case Nil
  show ?case using assms(2,3) by simp
next
  case (Cons r pre)
  show ?case
  proof (cases r)
    case None
    with Cons show ?thesis by simp
  next
    case (Some d)
    with Cons.prems have "48 \<le> length d" by simp
    then have l1: "16 \<le> length (py_slice d 16 32)" and l2: "16 \<le> length (py_slice d 32 48)"
      by (simp_all add: py_slice_def)
    obtain g1 where g1: "sensor_parse (py_slice d 16 32) = Inr g1"
      using sensor_parse_ok [OF l1] by blast
    obtain g2 where g2: "sensor_parse (py_slice d 32 48) = Inr g2"
      using sensor_parse_ok [OF l2] by blast
    from Cons Some g1 g2 show ?thesis by simp
  qed
qed

lemma summed_rate_snoc:
  "summed_rate g (rs @ [(f1, f2)]) = map2 (+) (map2 (+) (summed_rate g rs) (gyro f1)) (gyro f2)"
  by (induction g rs rule: summed_rate.induct) simp_all

lemma last_timestamp_snoc: "last_timestamp t (rs @ [(f1, f2)]) = timestamp f2"
  by (induction t rs rule: last_timestamp.induct) simp_all

lemma accumulated_time_snoc:
  "accumulated_time fl c t (rs @ [(f1, f2)])
     = fl (fl (accumulated_time fl c t rs
                 + fl (first_delta (last_timestamp t rs) (timestamp f1)))
             + fl (second_delta (timestamp f1) (timestamp f2)))"
  by (induction fl c t rs rule: accumulated_time.induct) simp_all

lemma calibration_fl_exit_iff:
  "calibration_fl fl st reads = Inr (Calibrated b t rest) \<longleftrightarrow>
      (\<exists>pre data.
          reads = pre @ Some data # rest
          \<and> (\<forall>d. Some d \<in> set (pre @ [Some data]) \<longrightarrow> 48 \<le> length d)
          \<and> (\<forall>k. 0 < k \<and> k < length (decoded_reports (pre @ [Some data])) \<longrightarrow>
                accumulated_time fl (comptime st) (time2 st)
                  (take k (decoded_reports (pre @ [Some data]))) \<le> 5)
          \<and> 5 < accumulated_time fl (comptime st) (time2 st)
                   (decoded_reports (pre @ [Some data]))
          \<and> b = map (\<lambda>x. fl (x / accumulated_time fl (comptime st) (time2 st)
                                   (decoded_reports (pre @ [Some data]))))
                    (map2 (\<lambda>g f. fl (g * f))
                       (map real_of_int
                          (summed_rate (gcomp st) (decoded_reports (pre @ [Some data]))))
                       GYRO_FACTOR)
          \<and> t = last_timestamp (time2 st) (decoded_reports (pre @ [Some data])))"
  (is "?L \<longleftrightarrow> ?R")
proof
  assume ?L
  from calibration_fl_exit [OF this] obtain pre data st0 st1 where
    r: "reads = pre @ Some data # rest"
    and w: "calibration_fl fl st pre = Inr (Uncalibrated st0)"
    and c: "calib_body_fl fl st0 data = Inr st1"
    and x: "5 < comptime st1" and b: "b = gyro_bias_fl fl st1" and t: "t = time2 st1"
    by blast
  note wf = calibration_fl_waiting [OF w]
  from c obtain f1 f2 where f1: "sensor_parse (py_slice data 16 32) = Inr f1"
    and f2: "sensor_parse (py_slice data 32 48) = Inr f2"
    and st1: "st1 = \<lparr>time2 = timestamp f2,
                  gcomp = map2 (+) (map2 (+) (gcomp st0) (gyro f1)) (gyro f2),
                  comptime = fl (fl (comptime st0 + fl (first_delta (time2 st0) (timestamp f1)))
                                   + fl (second_delta (timestamp f1) (timestamp f2)))\<rparr>"
    unfolding calib_body_fl_iff by blast
  have len: "48 \<le> length data"
    using c calib_body_fl_length by blast
  have pre48: "\<forall>d. Some d \<in> set pre \<longrightarrow> 48 \<le> length d"
    using wf by blast
  have d: "decoded_reports (pre @ [Some data]) = decoded_reports pre @ [(f1, f2)]"
    by (rule decoded_reports_snoc [OF pre48 f1 f2])
  have a: "accumulated_time fl (comptime st) (time2 st) (decoded_reports (pre @ [Some data]))
             = comptime st1"
    unfolding d accumulated_time_snoc using wf by (simp add: st1)
  have g: "summed_rate (gcomp st) (decoded_reports (pre @ [Some data])) = gcomp st1"
    unfolding d summed_rate_snoc using wf by (simp add: st1)
  have l: "last_timestamp (time2 st) (decoded_reports (pre @ [Some data])) = time2 st1"
    unfolding d last_timestamp_snoc by (simp add: st1)
  have k: "\<forall>k. 0 < k \<and> k < length (decoded_reports (pre @ [Some data])) \<longrightarrow>
                accumulated_time fl (comptime st) (time2 st)
                  (take k (decoded_reports (pre @ [Some data]))) \<le> 5"
    unfolding d using wf by simp
  have a48: "\<forall>d. Some d \<in> set (pre @ [Some data]) \<longrightarrow> 48 \<le> length d"
    using pre48 len by simp
  have "reads = pre @ Some data # rest
          \<and> (\<forall>d. Some d \<in> set (pre @ [Some data]) \<longrightarrow> 48 \<le> length d)
          \<and> (\<forall>k. 0 < k \<and> k < length (decoded_reports (pre @ [Some data])) \<longrightarrow>
                accumulated_time fl (comptime st) (time2 st)
                  (take k (decoded_reports (pre @ [Some data]))) \<le> 5)
          \<and> 5 < accumulated_time fl (comptime st) (time2 st)
                   (decoded_reports (pre @ [Some data]))
          \<and> b = map (\<lambda>x. fl (x / accumulated_time fl (comptime st) (time2 st)
                                   (decoded_reports (pre @ [Some data]))))
                    (map2 (\<lambda>g f. fl (g * f))
                       (map real_of_int
                          (summed_rate (gcomp st) (decoded_reports (pre @ [Some data]))))
                       GYRO_FACTOR)
          \<and> t = last_timestamp (time2 st) (decoded_reports (pre @ [Some data]))"
    unfolding a g l using r a48 k x b t
    by (simp add: gyro_bias_fl_def)
  then show ?R by blast
next
  assume ?R
  then obtain pre data where
    r: "reads = pre @ Some data # rest"
    and a48: "\<forall>d. Some d \<in> set (pre @ [Some data]) \<longrightarrow> 48 \<le> length d"
    and k: "\<forall>k. 0 < k \<and> k < length (decoded_reports (pre @ [Some data])) \<longrightarrow>
                accumulated_time fl (comptime st) (time2 st)
                  (take k (decoded_reports (pre @ [Some data]))) \<le> 5"
    and x: "5 < accumulated_time fl (comptime st) (time2 st)
                   (decoded_reports (pre @ [Some data]))"
    and b: "b = map (\<lambda>x. fl (x / accumulated_time fl (comptime st) (time2 st)
                                   (decoded_reports (pre @ [Some data]))))
                    (map2 (\<lambda>g f. fl (g * f))
                       (map real_of_int
                          (summed_rate (gcomp st) (decoded_reports (pre @ [Some data]))))
                       GYRO_FACTOR)"
    and t: "t = last_timestamp (time2 st) (decoded_reports (pre @ [Some data]))"
    by blast
  have pre48: "\<forall>d. Some d \<in> set pre \<longrightarrow> 48 \<le> length d" and len: "48 \<le> length data"
    using a48 by simp_all
  define st0 where "st0 = \<lparr>time2 = last_timestamp (time2 st) (decoded_reports pre),
                    gcomp = summed_rate (gcomp st) (decoded_reports pre),
                    comptime = accumulated_time fl (comptime st) (time2 st)
                                 (decoded_reports pre)\<rparr>"
  obtain st1 where c: "calib_body_fl fl st0 data = Inr st1"
    using len calib_body_fl_length by blast
  then obtain f1 f2 where f1: "sensor_parse (py_slice data 16 32) = Inr f1"
    and f2: "sensor_parse (py_slice data 32 48) = Inr f2"
    and st1: "st1 = \<lparr>time2 = timestamp f2,
                  gcomp = map2 (+) (map2 (+) (gcomp st0) (gyro f1)) (gyro f2),
                  comptime = fl (fl (comptime st0 + fl (first_delta (time2 st0) (timestamp f1)))
                                   + fl (second_delta (timestamp f1) (timestamp f2)))\<rparr>"
    unfolding calib_body_fl_iff by blast
  have d: "decoded_reports (pre @ [Some data]) = decoded_reports pre @ [(f1, f2)]"
    by (rule decoded_reports_snoc [OF pre48 f1 f2])
  have kp: "\<forall>k. 0 < k \<and> k \<le> length (decoded_reports pre) \<longrightarrow>
               accumulated_time fl (comptime st) (time2 st) (take k (decoded_reports pre)) \<le> 5"
  proof (intro allI impI)
    fix k assume h: "0 < k \<and> k \<le> length (decoded_reports pre)"
    with k [rule_format, of k] show
      "accumulated_time fl (comptime st) (time2 st) (take k (decoded_reports pre)) \<le> 5"
      unfolding d by simp
  qed
  have st: "st = \<lparr>time2 = time2 st, gcomp = gcomp st, comptime = comptime st\<rparr>"
    by simp
  have w: "calibration_fl fl st pre = Inr (Uncalibrated st0)"
    unfolding st0_def
    by (subst st) (rule calibration_fl_wait [OF pre48 kp])
  have a: "accumulated_time fl (comptime st) (time2 st) (decoded_reports (pre @ [Some data]))
             = comptime st1"
    unfolding d accumulated_time_snoc by (simp add: st1 st0_def)
  have g: "summed_rate (gcomp st) (decoded_reports (pre @ [Some data])) = gcomp st1"
    unfolding d summed_rate_snoc by (simp add: st1 st0_def)
  have l: "last_timestamp (time2 st) (decoded_reports (pre @ [Some data])) = time2 st1"
    unfolding d last_timestamp_snoc by (simp add: st1)
  from x have x1: "5 < comptime st1" unfolding a .
  have "calibration_fl fl st (pre @ Some data # rest)
          = Inr (Calibrated (gyro_bias_fl fl st1) (time2 st1) rest)"
    using calibration_fl_enter [OF w, of "Some data # rest"] c x1 by simp
  then show ?L
    using r b t unfolding a g l by (simp add: gyro_bias_fl_def)
qed

lemma calib_body_fl_exact: "calib_body_fl (\<lambda>x. x) st data = calib_body st data"
  by (simp add: calib_body_fl_def calib_body_def)

lemma gyro_bias_fl_exact: "gyro_bias_fl (\<lambda>x. x) st = gyro_bias st"
  by (simp add: gyro_bias_fl_def gyro_bias_def)

lemma calibration_fl_exact: "calibration_fl (\<lambda>x. x) st reads = calibration st reads"
  by (induction st reads rule: calibration.induct)
    (simp_all add: calib_body_fl_exact gyro_bias_fl_exact split: sum.splits)

lemma main_fl_exact: "main_fl (\<lambda>x. x) opt_comp Sensor = main opt_comp Sensor"
  by (cases Sensor) (simp_all add: main_fl_def main_def calibration_fl_exact)

lemma rates_without_bias:
  "map (\<lambda>fr. map2 (*) (map2 (-) (map real_of_int (gyro fr)) [0, 0, 0]) GYRO_FACTOR)
       (subframes reads)
     = map (\<lambda>fr. map2 (*) (map real_of_int (gyro fr)) GYRO_FACTOR) (subframes reads)"
proof (rule map_cong [OF refl])
  fix fr assume "fr \<in> set (subframes reads)"
  from subframes_gyro [OF this] obtain g0 g1 g2 where "gyro fr = [g0, g1, g2]"
    by blast
  then show "map2 (*) (map2 (-) (map real_of_int (gyro fr)) [0, 0, 0]) GYRO_FACTOR
               = map2 (*) (map real_of_int (gyro fr)) GYRO_FACTOR"
    by simp
qed

text \<open>
  C6. With \<open>--comp\<close> the calibration loop accumulates: as long as it waits, every block
  read so far held both sub-frames, \<open>gcomp\<close> is the sum of the gyro counts of all their
  sub-frames, \<open>comptime\<close> is the sum of all their elapsed times, and after each report
  that sum was at most 5. The loop is left exactly at the first report after which the
  accumulated time is strictly above 5 seconds. The bias is then the summed counts times
  \<open>GYRO_FACTOR\<close> divided by the accumulated seconds, and the retained \<open>time2\<close> is
  the last timestamp. From there on the script is in the fusion loop; it never
  calibrates again, and every rate it gives to the filter is a sample less that bias,
  times \<open>GYRO_FACTOR\<close>. Without \<open>--comp\<close> the bias stays the zero vector and every
  rate given to the filter is the sample itself times \<open>GYRO_FACTOR\<close>. All of this
  holds for every rounding \<open>fl\<close>, so for the sums as binary64 computes them.
\<close>

theorem calibration_stage:
  "(calibration_fl fl st reads = Inr (Uncalibrated st') \<longrightarrow>
      (\<forall>d. Some d \<in> set reads \<longrightarrow> 48 \<le> length d)
      \<and> time2 st' = last_timestamp (time2 st) (decoded_reports reads)
      \<and> gcomp st' = summed_rate (gcomp st) (decoded_reports reads)
      \<and> comptime st' = accumulated_time fl (comptime st) (time2 st) (decoded_reports reads)
      \<and> (\<forall>k. 0 < k \<and> k \<le> length (decoded_reports reads) \<longrightarrow>
            accumulated_time fl (comptime st) (time2 st) (take k (decoded_reports reads)) \<le> 5))
   \<and> (calibration_fl fl st reads = Inr (Calibrated b t rest) \<longleftrightarrow>
        (\<exists>pre data.
            reads = pre @ Some data # rest
            \<and> (\<forall>d. Some d \<in> set (pre @ [Some data]) \<longrightarrow> 48 \<le> length d)
            \<and> (\<forall>k. 0 < k \<and> k < length (decoded_reports (pre @ [Some data])) \<longrightarrow>
                  accumulated_time fl (comptime st) (time2 st)
                    (take k (decoded_reports (pre @ [Some data]))) \<le> 5)
            \<and> 5 < accumulated_time fl (comptime st) (time2 st)
                     (decoded_reports (pre @ [Some data]))
            \<and> b = map (\<lambda>x. fl (x / accumulated_time fl (comptime st) (time2 st)
                                     (decoded_reports (pre @ [Some data]))))
                      (map2 (\<lambda>g f. fl (g * f))
                         (map real_of_int
                            (summed_rate (gcomp st) (decoded_reports (pre @ [Some data]))))
                         GYRO_FACTOR)
            \<and> t = last_timestamp (time2 st) (decoded_reports (pre @ [Some data]))))
   \<and> (calibration_fl fl \<lparr>time2 = time2_init, gcomp = gcomp_init, comptime = comptime_init\<rparr>
         reads = Inr (Calibrated b t rest) \<longrightarrow>
        main_fl fl True (Some reads) = fusion_loop b t rest
        \<and> (\<forall>stage. snd (main_fl fl True (Some reads)) = Inr stage
                     \<longrightarrow> (\<exists>t'. stage = Running b t'))
        \<and> map fst (fst (main_fl fl True (Some reads)))
            = map (\<lambda>fr. map2 (*) (map2 (-) (map real_of_int (gyro fr)) b) GYRO_FACTOR)
                  (subframes rest))
   \<and> main_fl fl False (Some reads) = fusion_loop [0, 0, 0] time2_init reads
   \<and> (\<forall>stage. snd (main_fl fl False (Some reads)) = Inr stage
                \<longrightarrow> (\<exists>t'. stage = Running [0, 0, 0] t'))
   \<and> map fst (fst (main_fl fl False (Some reads)))
       = map (\<lambda>fr. map2 (*) (map real_of_int (gyro fr)) GYRO_FACTOR) (subframes reads)"
proof -
  note waiting = calibration_fl_waiting [of fl st reads st']
  note leaving = calibration_fl_exit_iff [of fl st reads b t rest]
  have once: "main_fl fl True (Some reads) = fusion_loop b t rest
        \<and> (\<forall>stage. snd (main_fl fl True (Some reads)) = Inr stage
                     \<longrightarrow> (\<exists>t'. stage = Running b t'))
        \<and> map fst (fst (main_fl fl True (Some reads)))
            = map (\<lambda>fr. map2 (*) (map2 (-) (map real_of_int (gyro fr)) b) GYRO_FACTOR)
                  (subframes rest)"
    if c: "calibration_fl fl \<lparr>time2 = time2_init, gcomp = gcomp_init,
                              comptime = comptime_init\<rparr> reads
             = Inr (Calibrated b t rest)"
  proof -
    have m: "main_fl fl True (Some reads) = fusion_loop b t rest"
      using c by (simp add: main_fl_def)
    show ?thesis
      unfolding m using fusion_loop_stage [of b t rest] fusion_loop_rates [of b t rest]
      by blast
  qed
  have off: "main_fl fl False (Some reads) = fusion_loop [0, 0, 0] time2_init reads"
    by (simp add: main_fl_def gcomp_init_def)
  have off_stage: "\<forall>stage. snd (main_fl fl False (Some reads)) = Inr stage
                     \<longrightarrow> (\<exists>t'. stage = Running [0, 0, 0] t')"
    unfolding off using fusion_loop_stage by blast
  have same: "map fst (fst (main_fl fl False (Some reads)))
       = map (\<lambda>fr. map2 (*) (map real_of_int (gyro fr)) GYRO_FACTOR) (subframes reads)"
    unfolding off fusion_loop_rates by (rule rates_without_bias)
  from waiting leaving once off off_stage same show ?thesis
    by blast
qed

theorem calibration_stage_witness:
  "calibration_fl (\<lambda>x. x)
       \<lparr>time2 = time2_init, gcomp = gcomp_init, comptime = comptime_init\<rparr>
       [Some (replicate 16 0 @ [0, 0, 0, 0, 3, 0, 0, 0, 0, 0, 0, 0, 0, 0, 0, 0]
                @ [0xC0, 0xC6, 0x2D, 0, 1, 0, 0, 0, 0, 0, 0, 0, 0, 0, 0, 0] @ replicate 16 0),
        None]
     = Inr (Uncalibrated \<lparr>time2 = 3000000, gcomp = [4, 0, 0], comptime = 6001 / 2000\<rparr>)
   \<and> summed_rate gcomp_init (decoded_reports
       [Some (replicate 16 0 @ [0, 0, 0, 0, 3, 0, 0, 0, 0, 0, 0, 0, 0, 0, 0, 0]
                @ [0xC0, 0xC6, 0x2D, 0, 1, 0, 0, 0, 0, 0, 0, 0, 0, 0, 0, 0] @ replicate 16 0),
        None]) = [4, 0, 0]
   \<and> accumulated_time (\<lambda>x. x) comptime_init time2_init (decoded_reports
       [Some (replicate 16 0 @ [0, 0, 0, 0, 3, 0, 0, 0, 0, 0, 0, 0, 0, 0, 0, 0]
                @ [0xC0, 0xC6, 0x2D, 0, 1, 0, 0, 0, 0, 0, 0, 0, 0, 0, 0, 0] @ replicate 16 0),
        None]) = 6001 / 2000
   \<and> calibration_fl (\<lambda>x. x)
       \<lparr>time2 = time2_init, gcomp = gcomp_init, comptime = comptime_init\<rparr>
       [Some (replicate 16 0 @ [0, 0, 0, 0, 3, 0, 0, 0, 0, 0, 0, 0, 0, 0, 0, 0]
                @ [0xC0, 0xC6, 0x2D, 0, 1, 0, 0, 0, 0, 0, 0, 0, 0, 0, 0, 0] @ replicate 16 0),
        None,
        Some (replicate 16 0 @ [0xB4, 0xC8, 0x2D, 0, 2, 0, 0, 0, 0, 0, 0, 0, 0, 0, 0, 0]
                @ [0x74, 0x8F, 0x5B, 0, 0, 0, 0, 0, 5, 0, 0, 0, 0, 0, 0, 0] @ replicate 16 0),
        None]
     = Inr (Calibrated
              (gyro_bias_fl (\<lambda>x. x)
                 \<lparr>time2 = 6000500, gcomp = [6, 0, 5], comptime = 6001 / 1000\<rparr>)
              6000500 [None])
   \<and> main_fl (\<lambda>x. x) True (Some
       [Some (replicate 16 0 @ [0, 0, 0, 0, 3, 0, 0, 0, 0, 0, 0, 0, 0, 0, 0, 0]
                @ [0xC0, 0xC6, 0x2D, 0, 1, 0, 0, 0, 0, 0, 0, 0, 0, 0, 0, 0] @ replicate 16 0),
        None,
        Some (replicate 16 0 @ [0xB4, 0xC8, 0x2D, 0, 2, 0, 0, 0, 0, 0, 0, 0, 0, 0, 0, 0]
                @ [0x74, 0x8F, 0x5B, 0, 0, 0, 0, 0, 5, 0, 0, 0, 0, 0, 0, 0] @ replicate 16 0),
        None])
     = ([], Inr (Running
              (gyro_bias_fl (\<lambda>x. x)
                 \<lparr>time2 = 6000500, gcomp = [6, 0, 5], comptime = 6001 / 1000\<rparr>)
              6000500))"
proof -
  define R1 :: "byte list" where
    "R1 = replicate 16 0 @ [0, 0, 0, 0, 3, 0, 0, 0, 0, 0, 0, 0, 0, 0, 0, 0]
                @ [0xC0, 0xC6, 0x2D, 0, 1, 0, 0, 0, 0, 0, 0, 0, 0, 0, 0, 0] @ replicate 16 0"
  define R2 :: "byte list" where
    "R2 = replicate 16 0 @ [0xB4, 0xC8, 0x2D, 0, 2, 0, 0, 0, 0, 0, 0, 0, 0, 0, 0, 0]
                @ [0x74, 0x8F, 0x5B, 0, 0, 0, 0, 0, 5, 0, 0, 0, 0, 0, 0, 0] @ replicate 16 0"
  define init where
    "init = \<lparr>time2 = time2_init, gcomp = gcomp_init, comptime = comptime_init\<rparr>"
  define B where
    "B = gyro_bias_fl (\<lambda>x. x) \<lparr>time2 = 6000500, gcomp = [6, 0, 5], comptime = 6001 / 1000\<rparr>"
  have e1: "calibration_fl (\<lambda>x. x) init [Some R1, None]
     = Inr (Uncalibrated \<lparr>time2 = 3000000, gcomp = [4, 0, 0], comptime = 6001 / 2000\<rparr>)"
    unfolding R1_def init_def
    by (simp add: py_slice_def sensor_parse_def Int32ul_parse_def Int16sl_parse_def
        Array_parse_3 calib_body_fl_def first_delta_def second_delta_def time2_init_def
        gcomp_init_def comptime_init_def Let_def)
  have e2: "calibration_fl (\<lambda>x. x) init [Some R1, None, Some R2, None]
     = Inr (Calibrated B 6000500 [None])"
    unfolding R1_def R2_def init_def B_def
    by (simp add: py_slice_def sensor_parse_def Int32ul_parse_def Int16sl_parse_def
        Array_parse_3 calib_body_fl_def first_delta_def second_delta_def time2_init_def
        gcomp_init_def comptime_init_def Let_def)
  from calibration_stage [of "\<lambda>x. x" init "[Some R1, None]"
      "\<lparr>time2 = 3000000, gcomp = [4, 0, 0], comptime = 6001 / 2000\<rparr>"] e1
  have s: "summed_rate gcomp_init (decoded_reports [Some R1, None]) = [4, 0, 0]"
    and a: "accumulated_time (\<lambda>x. x) comptime_init time2_init
              (decoded_reports [Some R1, None]) = 6001 / 2000"
    unfolding init_def by simp_all
  from calibration_stage [of "\<lambda>x. x" _ "[Some R1, None, Some R2, None]" _ B 6000500 "[None]"]
    e2 [unfolded init_def]
  have "main_fl (\<lambda>x. x) True (Some [Some R1, None, Some R2, None])
          = fusion_loop B 6000500 [None]"
    by blast
  then have m: "main_fl (\<lambda>x. x) True (Some [Some R1, None, Some R2, None])
          = ([], Inr (Running B 6000500))"
    by simp
  from e1 s a e2 m show ?thesis
    unfolding R1_def R2_def init_def B_def by blast
qed

end
